theory Spec2Isabelle
  imports Main "HOL-Library.Word" "HOL-Library.AList"
begin

unbundle bit_operations_syntax

section \<open>Data model (fitTypes.ts, fit.ts)\<close>

text \<open>
  JavaScript strings that hold paths, commit ids, content ids and base64 text are
  modelled as \<^typ>\<open>string\<close>; a \<^verbatim>\<open>Uint8Array\<close> is a list of 8-bit
  words. A \<^verbatim>\<open>Record<string, string>\<close> is an association list in insertion
  order, read with \<^const>\<open>map_of\<close>.
\<close>

type_synonym byte = "8 word"

type_synonym sha_record = "(string \<times> string) list"

datatype LocalFileStatus = deleted | created | changed

datatype RemoteChangeType = ADDED | MODIFIED | REMOVED

record LocalChange =
  lc_path :: string
  lc_status :: LocalFileStatus

record LocalUpdate =
  localChanges :: "LocalChange list"
  parentCommitSha :: string

record RemoteChange =
  rc_path :: string
  rc_status :: RemoteChangeType
  currentSha :: "string option"

record ClashStatus =
  cs_path :: string
  localStatus :: LocalFileStatus
  remoteStatus :: RemoteChangeType

record RemoteUpdate =
  remoteChanges :: "RemoteChange list"
  remoteTreeSha :: sha_record
  latestRemoteCommitSha :: string
  clashedFiles :: "ClashStatus list"

text \<open>
  The union type \<^verbatim>\<open>ConflictReport\<close>: the variant tagged \<^verbatim>\<open>"utf-8"\<close>
  carries path, local content and remote content; the variant tagged
  \<^verbatim>\<open>"binary"\<close> carries path and remote content.
\<close>

datatype ConflictReport =
    Utf8Report string string string
  | BinaryReport string string

fun resolutionStrategy :: "ConflictReport \<Rightarrow> string" where
  "resolutionStrategy (Utf8Report p l r) = ''utf-8''"
| "resolutionStrategy (BinaryReport p r) = ''binary''"

fun report_path :: "ConflictReport \<Rightarrow> string" where
  "report_path (Utf8Report p l r) = p"
| "report_path (BinaryReport p r) = p"

fun report_remoteContent :: "ConflictReport \<Rightarrow> string" where
  "report_remoteContent (Utf8Report p l r) = r"
| "report_remoteContent (BinaryReport p r) = r"

record FileOpRecord =
  fo_path :: string
  fo_status :: LocalFileStatus

record ConflictResolutionResult =
  cr_path :: string
  noDiff :: bool
  fileOp :: "FileOpRecord option"

datatype TreeMode = M100644 | M100755 | M040000 | M160000 | M120000

datatype TreeType = commit | blob | tree

record TreeNode =
  tn_path :: string
  tn_mode :: "TreeMode option"
  tn_type :: "TreeType option"
  tn_sha :: "string option"

text \<open>
  The persisted snapshot as the persistence callback receives it
  (\<^verbatim>\<open>Partial<LocalStores>\<close>): an absent field is \<^const>\<open>None\<close>.
\<close>

record LocalStores =
  ls_localSha :: "sha_record option"
  ls_lastFetchedCommitSha :: "string option"
  ls_lastFetchedRemoteSha :: "sha_record option"

text \<open>The three snapshot fields of the \<^verbatim>\<open>Fit\<close> object, and its branch.\<close>

record Fit =
  branch :: string
  localSha :: sha_record
  lastFetchedCommitSha :: "string option"
  lastFetchedRemoteSha :: sha_record

record CreateCommitResult =
  createdCommitSha :: string
  cc_pushedChanges :: "LocalChange list"

record PushResult =
  pr_pushedChanges :: "LocalChange list"
  pr_lastFetchedRemoteSha :: sha_record
  pr_lastFetchedCommitSha :: string

datatype PreSyncCheckResultType =
    inSync
  | onlyLocalChanged
  | onlyRemoteChanged
  | onlyRemoteCommitShaChanged
  | localAndRemoteChangesCompatible
  | localAndRemoteChangesClashed

text \<open>
  \<^verbatim>\<open>PreSyncCheckResult\<close>: either the bare status \<^verbatim>\<open>"inSync"\<close>, or a status
  with the remote update, the local changes and the current local fingerprints.
\<close>

datatype PreSyncCheckResult =
    InSyncResult
  | ChangeResult PreSyncCheckResultType RemoteUpdate "LocalChange list" sha_record



section \<open>Errors\<close>

text \<open>
  A thrown JavaScript error carries a message and, for a failed request, an HTTP status.
  \<^verbatim>\<open>OctokitHttpError\<close> adds the name of the operation that failed.
\<close>

datatype error =
    Thrown string int
  | OctokitHttpError string int string

fun err_message :: "error \<Rightarrow> string" where
  "err_message (Thrown m st) = m"
| "err_message (OctokitHttpError m st src) = m"

fun err_status :: "error \<Rightarrow> int" where
  "err_status (Thrown m st) = st"
| "err_status (OctokitHttpError m st src) = st"

section \<open>The platform's base64 functions\<close>

text \<open>
  \<^verbatim>\<open>btoa\<close> and \<^verbatim>\<open>atob\<close> are functions of the host platform. A binary
  string (one character per byte) is a \<^typ>\<open>string\<close>. \<^verbatim>\<open>btoa\<close> is base64 with
  padding; \<^verbatim>\<open>atob\<close> is the forgiving decoder: it drops ASCII whitespace, removes
  one or two padding characters from an input whose length is a multiple of four,
  rejects a length of one modulo four and any character outside the alphabet, and
  discards the bits left over after the last whole byte.
\<close>

definition b64chars :: string where
  "b64chars = ''ABCDEFGHIJKLMNOPQRSTUVWXYZabcdefghijklmnopqrstuvwxyz0123456789+/''"

definition b64_char :: "nat \<Rightarrow> char" where
  "b64_char n = b64chars ! (n mod 64)"

fun b64_find :: "string \<Rightarrow> char \<Rightarrow> nat \<Rightarrow> nat option" where
  "b64_find [] c i = None"
| "b64_find (x # xs) c i = (if x = c then Some i else b64_find xs c (Suc i))"

definition b64_index :: "char \<Rightarrow> nat option" where
  "b64_index c = b64_find b64chars c 0"

fun btoa :: "string \<Rightarrow> string" where
  "btoa (a # b # c # rest) =
     (let n = of_char a * 65536 + of_char b * 256 + of_char c :: nat
      in b64_char (n div 262144) # b64_char (n div 4096) # b64_char (n div 64) # b64_char n
         # btoa rest)"
| "btoa [a, b] =
     (let n = of_char a * 1024 + of_char b * 4 :: nat
      in [b64_char (n div 4096), b64_char (n div 64), b64_char n, CHR ''=''])"
| "btoa [a] =
     (let n = of_char a * 16 :: nat
      in [b64_char (n div 64), b64_char n, CHR ''='', CHR ''=''])"
| "btoa [] = []"

definition is_ascii_whitespace :: "char \<Rightarrow> bool" where
  "is_ascii_whitespace c \<longleftrightarrow> of_char c \<in> {9, 10, 12, 13, 32 :: nat}"

definition drop_padding :: "string \<Rightarrow> string" where
  "drop_padding s =
     (if length s mod 4 = 0 \<and> s \<noteq> [] \<and> last s = CHR ''='' then
        (let s1 = butlast s
         in if s1 \<noteq> [] \<and> last s1 = CHR ''='' then butlast s1 else s1)
      else s)"

fun sextets :: "string \<Rightarrow> nat list option" where
  "sextets [] = Some []"
| "sextets (c # cs) =
     (case b64_index c of
        None \<Rightarrow> None
      | Some n \<Rightarrow> (case sextets cs of None \<Rightarrow> None | Some ns \<Rightarrow> Some (n # ns)))"

fun atob_groups :: "nat list \<Rightarrow> string" where
  "atob_groups (a # b # c # d # rest) =
     (let n = a * 262144 + b * 4096 + c * 64 + d
      in char_of (n div 65536) # char_of (n div 256) # char_of n # atob_groups rest)"
| "atob_groups [a, b, c] =
     (let n = (a * 4096 + b * 64 + c) div 4
      in [char_of (n div 256), char_of n])"
| "atob_groups [a, b] = [char_of ((a * 64 + b) div 16)]"
| "atob_groups [a] = []"
| "atob_groups [] = []"

definition atob :: "string \<Rightarrow> error + string" where
  "atob data =
     (let d = drop_padding (filter (\<lambda>c. \<not> is_ascii_whitespace c) data)
      in if length d mod 4 = 1 then Inl (Thrown ''InvalidCharacterError'' 0)
         else (case sextets d of
                 None \<Rightarrow> Inl (Thrown ''InvalidCharacterError'' 0)
               | Some ns \<Rightarrow> Inr (atob_groups ns)))"

section \<open>Encryption layer (encryption.ts)\<close>

text \<open>
  The primitives the class takes from the platform and from pako: the two digests, the
  AES-CTR key stream (the cipher XORs the data with a stream fixed by key and initial
  counter block), AES-GCM, the compressor and its inverse, the UTF-8 codec and
  base64-js's decoder.
\<close>

record crypto_lib =
  sha256 :: "byte list \<Rightarrow> byte list"
  sha1_hex :: "string \<Rightarrow> string"
  aes_ctr_keystream :: "byte list \<Rightarrow> byte list \<Rightarrow> nat \<Rightarrow> byte"
  aes_gcm_encrypt :: "byte list \<Rightarrow> byte list \<Rightarrow> byte list \<Rightarrow> byte list"
  aes_gcm_decrypt :: "byte list \<Rightarrow> byte list \<Rightarrow> byte list \<Rightarrow> error + byte list"
  deflate :: "byte list \<Rightarrow> byte list"
  inflate :: "byte list \<Rightarrow> error + byte list"
  utf8_encode :: "string \<Rightarrow> byte list"
  utf8_decode :: "byte list \<Rightarrow> string"
  base64js_toByteArray :: "string \<Rightarrow> error + byte list"

text \<open>\<^verbatim>\<open>IV = new Uint8Array(16)\<close>: sixteen zero bytes.\<close>

definition IV :: "byte list" where
  "IV = replicate 16 0"

text \<open>
  \<^verbatim>\<open>importKey\<close>: the raw key is the SHA-256 digest of the configured secret, whatever
  the algorithm it is imported for.
\<close>

definition importKey :: "crypto_lib \<Rightarrow> string \<Rightarrow> byte list" where
  "importKey lib secret = sha256 lib (utf8_encode lib secret)"

definition aes_ctr :: "crypto_lib \<Rightarrow> byte list \<Rightarrow> byte list \<Rightarrow> byte list \<Rightarrow> byte list" where
  "aes_ctr lib k counter data =
     map (\<lambda>(i, b). b XOR aes_ctr_keystream lib k counter i) (enumerate 0 data)"

definition fromCharCodes :: "byte list \<Rightarrow> string" where
  "fromCharCodes bytes = map (\<lambda>b. char_of (unat b)) bytes"

definition charCodes :: "string \<Rightarrow> byte list" where
  "charCodes s = map (\<lambda>c. of_char c) s"

definition replaceAll :: "char \<Rightarrow> char \<Rightarrow> string \<Rightarrow> string" where
  "replaceAll x y s = map (\<lambda>c. if c = x then y else c) s"

text \<open>\<^verbatim>\<open>replace(/=+$/, '')\<close>: the trailing run of padding characters is removed.\<close>

definition stripPadding :: "string \<Rightarrow> string" where
  "stripPadding s = rev (dropWhile (\<lambda>c. c = CHR ''='') (rev s))"

definition arrayBufferToBase64Url :: "byte list \<Rightarrow> string" where
  "arrayBufferToBase64Url buffer =
     (let base64 = fromCharCodes buffer
      in stripPadding (replaceAll CHR ''/'' CHR ''_'' (replaceAll CHR ''+'' CHR ''-'' (btoa base64))))"

definition base64UrlToArrayBuffer :: "string \<Rightarrow> error + byte list" where
  "base64UrlToArrayBuffer base64Url =
     (let base64 = replaceAll CHR ''_'' CHR ''/'' (replaceAll CHR ''-'' CHR ''+'' base64Url)
      in case atob base64 of
           Inl e \<Rightarrow> Inl e
         | Inr binaryString \<Rightarrow> Inr (charCodes binaryString))"

definition encryptPath :: "crypto_lib \<Rightarrow> string \<Rightarrow> string \<Rightarrow> string" where
  "encryptPath lib secret path =
     (let compressed = deflate lib (utf8_encode lib path);
          encrypted = aes_ctr lib (importKey lib secret) IV compressed
      in arrayBufferToBase64Url encrypted)"

definition decryptPath :: "crypto_lib \<Rightarrow> string \<Rightarrow> string \<Rightarrow> error + string" where
  "decryptPath lib secret data =
     (case base64UrlToArrayBuffer data of
        Inl e \<Rightarrow> Inl e
      | Inr encryptedBytes \<Rightarrow>
          (let decrypted = aes_ctr lib (importKey lib secret) IV encryptedBytes
           in case inflate lib decrypted of
                Inl e \<Rightarrow> Inl e
              | Inr decompressed \<Rightarrow> Inr (utf8_decode lib decompressed)))"

text \<open>
  \<^verbatim>\<open>encrypt\<close> takes the twelve random bytes of \<^verbatim>\<open>generateIV\<close> as an argument;
  base64-js's encoder is base64 with padding.
\<close>

definition encrypt :: "crypto_lib \<Rightarrow> string \<Rightarrow> byte list \<Rightarrow> string \<Rightarrow> string" where
  "encrypt lib secret iv plainText =
     (let encodedText = utf8_encode lib plainText;
          cipherBuffer = aes_gcm_encrypt lib (importKey lib secret) iv encodedText;
          combined = iv @ cipherBuffer
      in btoa (fromCharCodes combined))"

definition decrypt :: "crypto_lib \<Rightarrow> string \<Rightarrow> string \<Rightarrow> error + string" where
  "decrypt lib secret base64Content =
     (case base64js_toByteArray lib base64Content of
        Inl e \<Rightarrow> Inl e
      | Inr combined \<Rightarrow>
          (let iv = take 12 combined;
               ciphertext = drop 12 combined
           in case aes_gcm_decrypt lib (importKey lib secret) iv ciphertext of
                Inl e \<Rightarrow> Inl e
              | Inr plainBuffer \<Rightarrow> Inr (utf8_decode lib plainBuffer)))"

section \<open>Clash classification (Fit.getClashedChanges)\<close>

text \<open>
  \<^verbatim>\<open>Array.prototype.indexOf\<close>: the first index holding the element; the result
  \<^verbatim>\<open>-1\<close> of the source is \<^const>\<open>None\<close>.
\<close>

fun indexOf :: "'a list \<Rightarrow> 'a \<Rightarrow> nat option" where
  "indexOf [] x = None"
| "indexOf (y # ys) x = (if y = x then Some 0 else map_option Suc (indexOf ys x))"

definition getClashedChanges :: "LocalChange list \<Rightarrow> RemoteChange list \<Rightarrow> ClashStatus list" where
  "getClashedChanges lcs rcs =
     (let localChangePaths = map lc_path lcs;
          remoteChangePaths = map rc_path rcs;
          clashed = List.map_filter
            (\<lambda>(path, localIndex).
               case indexOf remoteChangePaths path of
                 None \<Rightarrow> None
               | Some remoteIndex \<Rightarrow> Some (path, localIndex, remoteIndex))
            (zip localChangePaths [0..<length localChangePaths])
      in map (\<lambda>(path, localIndex, remoteIndex).
                \<lparr>cs_path = path,
                 localStatus = lc_status (lcs ! localIndex),
                 remoteStatus = rc_status (rcs ! remoteIndex)\<rparr>) clashed)"

section \<open>Conflict reports (FitSync.generateConflictReport)\<close>

definition generateConflictReport :: "string \<Rightarrow> string \<Rightarrow> string \<Rightarrow> ConflictReport" where
  "generateConflictReport path localContent remoteContent =
     Utf8Report path localContent remoteContent"

section \<open>Effects\<close>

text \<open>
  Every call the engine makes to a collaborator (the vault, the remote API, the notice,
  the persistence callback, and the pull and push helpers) is recorded in order,
  together with whether it succeeded.
\<close>

datatype call =
    VaultGetFiles
  | VaultReadBinary string
  | EnsureFolderExists string
  | WriteToLocal string string
  | UpdateLocalFiles "(string \<times> string) list" "string list"
  | RequestGetRef string
  | RequestGetTree string
  | RequestGetBlob "string option"
  | RequestCreateBlob string string
  | RequestUpdateRef string string
  | GetRandomValues nat
  | PrepareChangesToExecute "RemoteChange list"
  | CreateCommitFromLocalUpdate LocalUpdate "TreeNode list"
  | PushChangedFilesToRemote LocalUpdate
  | SaveLocalStore LocalStores
  | SetMessage string

text \<open>
  The collaborators. Each operation reads and changes a state of the outside world and
  either fails or returns. The helpers of \<^verbatim>\<open>FitPull\<close>, \<^verbatim>\<open>FitPush\<close>,
  \<^verbatim>\<open>VaultOperations\<close> and \<^verbatim>\<open>utils\<close> that the source files call but do not
  define are fields of this record too.
\<close>

record 's env =
  lib :: crypto_lib
  secret :: string
  vault_getFiles :: "'s \<Rightarrow> string list"
  vault_readBinary :: "string \<Rightarrow> 's \<Rightarrow> (error + byte list) \<times> 's"
  vault_ensureFolderExists :: "string \<Rightarrow> 's \<Rightarrow> (error + bool) \<times> 's"
  vault_writeToLocal :: "string \<Rightarrow> string \<Rightarrow> 's \<Rightarrow> (error + FileOpRecord) \<times> 's"
  vault_updateLocalFiles ::
    "(string \<times> string) list \<Rightarrow> string list \<Rightarrow> 's \<Rightarrow> (error + FileOpRecord list) \<times> 's"
  request_getRef :: "string \<Rightarrow> 's \<Rightarrow> (error + string) \<times> 's"
  request_getTree :: "string \<Rightarrow> 's \<Rightarrow> (error + TreeNode list) \<times> 's"
  request_getBlob :: "string option \<Rightarrow> 's \<Rightarrow> (error + string) \<times> 's"
  request_createBlob :: "string \<Rightarrow> string \<Rightarrow> 's \<Rightarrow> (error + string) \<times> 's"
  request_updateRef :: "string \<Rightarrow> string \<Rightarrow> 's \<Rightarrow> (error + string) \<times> 's"
  getRandomValues :: "nat \<Rightarrow> 's \<Rightarrow> byte list \<times> 's"
  removeLineEndingsFromBase64String :: "string \<Rightarrow> string"
  pull_prepareChangesToExecute ::
    "RemoteChange list \<Rightarrow> 's \<Rightarrow> (error + (string \<times> string) list \<times> string list) \<times> 's"
  push_createCommitFromLocalUpdate ::
    "LocalUpdate \<Rightarrow> TreeNode list \<Rightarrow> 's \<Rightarrow> (error + CreateCommitResult option) \<times> 's"
  push_pushChangedFilesToRemote ::
    "LocalUpdate \<Rightarrow> 's \<Rightarrow> (error + PushResult option) \<times> 's"
  saveLocalStoreCallback :: "LocalStores \<Rightarrow> 's \<Rightarrow> (error + unit) \<times> 's"

type_synonym 's world = "(call \<times> bool) list \<times> 's"

type_synonym ('a, 's) prog = "'s world \<Rightarrow> (error + 'a) \<times> 's world"

definition return :: "'a \<Rightarrow> ('a, 's) prog" where
  "return x = (\<lambda>w. (Inr x, w))"

definition throw :: "error \<Rightarrow> ('a, 's) prog" where
  "throw e = (\<lambda>w. (Inl e, w))"

definition bind :: "('a, 's) prog \<Rightarrow> ('a \<Rightarrow> ('b, 's) prog) \<Rightarrow> ('b, 's) prog" where
  "bind m f = (\<lambda>w. case m w of (Inl e, w') \<Rightarrow> (Inl e, w') | (Inr x, w') \<Rightarrow> f x w')"

definition try_catch :: "('a, 's) prog \<Rightarrow> (error \<Rightarrow> ('a, 's) prog) \<Rightarrow> ('a, 's) prog" where
  "try_catch m h = (\<lambda>w. case m w of (Inl e, w') \<Rightarrow> h e w' | (Inr x, w') \<Rightarrow> (Inr x, w'))"

text \<open>A call to a collaborator: performed, and recorded with its outcome.\<close>

definition prim :: "call \<Rightarrow> ('s \<Rightarrow> (error + 'a) \<times> 's) \<Rightarrow> ('a, 's) prog" where
  "prim c f = (\<lambda>(tr, s). case f s of (r, s') \<Rightarrow> (r, (tr @ [(c, \<not> isl r)], s')))"

text \<open>
  A call whose promise is not awaited: the call is issued, and neither its result nor
  its failure reaches the caller.
\<close>

definition unawaited :: "('a, 's) prog \<Rightarrow> (unit, 's) prog" where
  "unawaited m = (\<lambda>w. case m w of (r, w') \<Rightarrow> (Inr (), w'))"

text \<open>
  \<^verbatim>\<open>Promise.all\<close> over a mapped array: the tasks are run in the order of the array,
  and the first failure is the failure of the whole.
\<close>

fun mapM :: "('a \<Rightarrow> ('b, 's) prog) \<Rightarrow> 'a list \<Rightarrow> ('b list, 's) prog" where
  "mapM f [] = return []"
| "mapM f (x # xs) = bind (f x) (\<lambda>y. bind (mapM f xs) (\<lambda>ys. return (y # ys)))"


section \<open>The remote and local primitives of Fit (fit.ts)\<close>

definition startsWith :: "string \<Rightarrow> string \<Rightarrow> bool" where
  "startsWith s pre \<longleftrightarrow> take (length pre) s = pre"

text \<open>
  \<^verbatim>\<open>Object.fromEntries\<close>: a later entry for a key replaces its value. The list keeps
  the keys in the order of their first insertion; a JavaScript object enumerates
  integer-like keys first, which changes the order of the keys and nothing else.
\<close>

definition fromEntries :: "(string \<times> string) list \<Rightarrow> sha_record" where
  "fromEntries es = foldl (\<lambda>m (k, v). AList.update k v m) [] es"

text \<open>Obsidian's \<^verbatim>\<open>arrayBufferToBase64\<close>: base64 with padding.\<close>

definition arrayBufferToBase64 :: "byte list \<Rightarrow> string" where
  "arrayBufferToBase64 buffer = btoa (fromCharCodes buffer)"

definition fileSha1 :: "'s env \<Rightarrow> string \<Rightarrow> string" where
  "fileSha1 env fileContent = sha1_hex (lib env) fileContent"

definition computeFileLocalSha :: "'s env \<Rightarrow> string \<Rightarrow> (string, 's) prog" where
  "computeFileLocalSha env path =
     bind (prim (VaultReadBinary path) (vault_readBinary env path)) (\<lambda>buffer.
       return (fileSha1 env (path @ arrayBufferToBase64 buffer)))"

text \<open>
  \<^verbatim>\<open>computeLocalSha\<close>: a path under \<^verbatim>\<open>_fit/\<close> is mapped to null, and
  \<^verbatim>\<open>filter(Boolean)\<close> drops the nulls and an empty path.
\<close>

definition computeLocalSha :: "'s env \<Rightarrow> (sha_record, 's) prog" where
  "computeLocalSha env =
     bind (prim VaultGetFiles (\<lambda>s. (Inr (vault_getFiles env s), s))) (\<lambda>files.
       let paths = filter (\<lambda>p. \<not> startsWith p ''_fit/'' \<and> p \<noteq> []) files
       in bind (mapM (\<lambda>p. bind (computeFileLocalSha env p) (\<lambda>h. return (p, h))) paths)
            (\<lambda>entries. return (fromEntries entries)))"

definition getRef :: "'s env \<Rightarrow> string \<Rightarrow> (string, 's) prog" where
  "getRef env ref =
     try_catch (prim (RequestGetRef ref) (request_getRef env ref))
       (\<lambda>e. throw (OctokitHttpError (err_message e) (err_status e) ''getRef''))"

definition getLatestRemoteCommitSha :: "'s env \<Rightarrow> Fit \<Rightarrow> (string, 's) prog" where
  "getLatestRemoteCommitSha env fit = getRef env (''heads/'' @ branch fit)"

definition remoteUpdated :: "'s env \<Rightarrow> Fit \<Rightarrow> (string \<times> bool, 's) prog" where
  "remoteUpdated env fit =
     bind (getLatestRemoteCommitSha env fit) (\<lambda>remoteCommitSha.
       return (remoteCommitSha, Some remoteCommitSha \<noteq> lastFetchedCommitSha fit))"

text \<open>
  Modelled from the spec: \<^verbatim>\<open>compareSha\<close> of \<^verbatim>\<open>utils\<close> is not among the source
  files. The spec's change detector diffs the current fingerprint map against the
  previous one: a path present only in the current map is created (ADDED), a path
  present only in the previous map is deleted (REMOVED), a path present in both with
  different fingerprints is changed (MODIFIED). The spec gives a change a path and a
  kind only, so the optional \<^verbatim>\<open>currentSha\<close> of a remote change is left absent.
\<close>

definition compareSha ::
  "sha_record \<Rightarrow> sha_record \<Rightarrow> (string \<times> LocalFileStatus) list" where
  "compareSha current previous =
     List.map_filter
       (\<lambda>(p, h). case map_of previous p of
                    None \<Rightarrow> Some (p, created)
                  | Some h' \<Rightarrow> if h \<noteq> h' then Some (p, changed) else None) current
     @ List.map_filter
         (\<lambda>(p, h). case map_of current p of
                      None \<Rightarrow> Some (p, deleted)
                    | Some h' \<Rightarrow> None) previous"

fun remoteKind :: "LocalFileStatus \<Rightarrow> RemoteChangeType" where
  "remoteKind created = ADDED"
| "remoteKind changed = MODIFIED"
| "remoteKind deleted = REMOVED"

definition compareShaLocal :: "sha_record \<Rightarrow> sha_record \<Rightarrow> LocalChange list" where
  "compareShaLocal current previous =
     map (\<lambda>(p, k). \<lparr>lc_path = p, lc_status = k\<rparr>) (compareSha current previous)"

definition compareShaRemote :: "sha_record \<Rightarrow> sha_record \<Rightarrow> RemoteChange list" where
  "compareShaRemote current previous =
     map (\<lambda>(p, k). \<lparr>rc_path = p, rc_status = remoteKind k, currentSha = None\<rparr>)
       (compareSha current previous)"

definition getLocalChanges ::
  "'s env \<Rightarrow> Fit \<Rightarrow> sha_record option \<Rightarrow> (LocalChange list, 's) prog" where
  "getLocalChanges env fit currentLocalSha =
     bind (case currentLocalSha of
             None \<Rightarrow> computeLocalSha env
           | Some cur \<Rightarrow> return cur) (\<lambda>cur.
       return (compareShaLocal cur (localSha fit)))"

definition getRemoteChanges :: "Fit \<Rightarrow> sha_record \<Rightarrow> RemoteChange list" where
  "getRemoteChanges fit remoteTree = compareShaRemote remoteTree (lastFetchedRemoteSha fit)"

text \<open>
  \<^verbatim>\<open>getTree\<close>: each node's path is replaced by its decryption; where decryption
  throws, the error is logged and the node keeps the path it was fetched with.
\<close>

definition decryptNode :: "'s env \<Rightarrow> TreeNode \<Rightarrow> TreeNode" where
  "decryptNode env node =
     (case decryptPath (lib env) (secret env) (tn_path node) of
        Inl e \<Rightarrow> node
      | Inr p \<Rightarrow> node\<lparr>tn_path := p\<rparr>)"

definition getTree :: "'s env \<Rightarrow> string \<Rightarrow> (TreeNode list, 's) prog" where
  "getTree env tree_sha =
     bind (prim (RequestGetTree tree_sha) (request_getTree env tree_sha)) (\<lambda>arr.
       return (map (decryptNode env) arr))"

definition blobEntry :: "TreeNode \<Rightarrow> error + (string \<times> string) option" where
  "blobEntry node =
     (if tn_type node = Some blob then
        (case tn_sha node of
           None \<Rightarrow> Inl (Thrown ''Path or sha not found for blob node in remote'' 0)
         | Some sha \<Rightarrow>
             if tn_path node = [] \<or> sha = [] then
               Inl (Thrown ''Path or sha not found for blob node in remote'' 0)
             else if startsWith (tn_path node) ''_fit/'' then Inr None
             else Inr (Some (tn_path node, sha)))
      else Inr None)"

fun blobEntries :: "TreeNode list \<Rightarrow> error + (string \<times> string) list" where
  "blobEntries [] = Inr []"
| "blobEntries (node # nodes) =
     (case blobEntry node of
        Inl e \<Rightarrow> Inl e
      | Inr entry \<Rightarrow>
          (case blobEntries nodes of
             Inl e \<Rightarrow> Inl e
           | Inr entries \<Rightarrow>
               Inr ((case entry of None \<Rightarrow> [] | Some kv \<Rightarrow> [kv]) @ entries)))"

definition getRemoteTreeSha :: "'s env \<Rightarrow> string \<Rightarrow> (sha_record, 's) prog" where
  "getRemoteTreeSha env tree_sha =
     bind (getTree env tree_sha) (\<lambda>remoteTree.
       case blobEntries remoteTree of
         Inl e \<Rightarrow> throw e
       | Inr entries \<Rightarrow> return (fromEntries entries))"

definition createBlob :: "'s env \<Rightarrow> string \<Rightarrow> string \<Rightarrow> (string, 's) prog" where
  "createBlob env content encoding =
     bind (prim (GetRandomValues 12) (\<lambda>s. case getRandomValues env 12 s of (iv, s') \<Rightarrow> (Inr iv, s')))
       (\<lambda>iv. let encrypted = encrypt (lib env) (secret env) iv content
             in prim (RequestCreateBlob encrypted encoding)
                  (request_createBlob env encrypted encoding))"

definition createTreeNodeFromFile ::
  "'s env \<Rightarrow> LocalChange \<Rightarrow> TreeNode list \<Rightarrow> (TreeNode option, 's) prog" where
  "createTreeNodeFromFile env change remoteTree =
     (let path = lc_path change in
      if lc_status change = deleted then
        (if list_all (\<lambda>node. tn_path node \<noteq> path) remoteTree then return None
         else return (Some \<lparr>tn_path = path, tn_mode = Some M100644, tn_type = Some blob,
                             tn_sha = None\<rparr>))
      else
        bind (prim (VaultReadBinary path) (vault_readBinary env path)) (\<lambda>fileArrayBuf.
          let binaryString = fromCharCodes fileArrayBuf;
              content = btoa binaryString;
              encoding = ''base64''
          in bind (createBlob env content encoding) (\<lambda>blobSha.
               if list_ex (\<lambda>node. tn_path node = path \<and> tn_sha node = Some blobSha) remoteTree
               then return None
               else return (Some \<lparr>tn_path = path, tn_mode = Some M100644,
                                   tn_type = Some blob, tn_sha = Some blobSha\<rparr>))))"


text \<open>
  \<^verbatim>\<open>getBlob\<close>: a failure of the request propagates; a failure while decrypting is
  caught and logged, and the fetched content is returned as it came.
\<close>

definition getBlob :: "'s env \<Rightarrow> string option \<Rightarrow> (string, 's) prog" where
  "getBlob env file_sha =
     bind (prim (RequestGetBlob file_sha) (request_getBlob env file_sha)) (\<lambda>content.
       let data = filter (\<lambda>c. c \<noteq> CHR 0x0A) content
       in case decrypt (lib env) (secret env) data of
            Inl e \<Rightarrow> return content
          | Inr plain \<Rightarrow> return plain)"

section \<open>Sync orchestration (fitSync.ts)\<close>

definition performPreSyncChecks :: "'s env \<Rightarrow> Fit \<Rightarrow> (PreSyncCheckResult, 's) prog" where
  "performPreSyncChecks env fit =
     bind (computeLocalSha env) (\<lambda>currentLocalSha.
     bind (getLocalChanges env fit (Some currentLocalSha)) (\<lambda>lcs.
     bind (remoteUpdated env fit) (\<lambda>(remoteCommitSha, updated).
       if lcs = [] \<and> \<not> updated then return InSyncResult
       else
         bind (getRemoteTreeSha env remoteCommitSha) (\<lambda>treeSha.
           let rcs = getRemoteChanges fit treeSha;
               (st, clashes) =
                 (if lcs \<noteq> [] \<and> \<not> updated then (onlyLocalChanged, [])
                  else if updated \<and> lcs = [] \<and> rcs = [] then (onlyRemoteCommitShaChanged, [])
                  else if lcs = [] \<and> updated then (onlyRemoteChanged, [])
                  else (let cl = getClashedChanges lcs rcs
                        in if cl = [] then (localAndRemoteChangesCompatible, cl)
                           else (localAndRemoteChangesClashed, cl)))
           in return (ChangeResult st
                        \<lparr>remoteChanges = rcs, remoteTreeSha = treeSha,
                         latestRemoteCommitSha = remoteCommitSha, clashedFiles = clashes\<rparr>
                        lcs currentLocalSha)))))"

text \<open>
  \<^verbatim>\<open>handleLocalDeletionConflict\<close> calls \<^verbatim>\<open>ensureFolderExists\<close> and
  \<^verbatim>\<open>writeToLocal\<close> without awaiting them.
\<close>

definition handleLocalDeletionConflict ::
  "'s env \<Rightarrow> string \<Rightarrow> string \<Rightarrow> (FileOpRecord, 's) prog" where
  "handleLocalDeletionConflict env path remoteContent =
     (let conflictResolutionFolder = ''_fit'';
          conflictResolutionPath = conflictResolutionFolder @ ''/'' @ path
      in bind (unawaited (prim (EnsureFolderExists conflictResolutionFolder)
                 (vault_ensureFolderExists env conflictResolutionFolder))) (\<lambda>u.
         bind (unawaited (prim (WriteToLocal conflictResolutionPath remoteContent)
                 (vault_writeToLocal env conflictResolutionPath remoteContent))) (\<lambda>u.
         return \<lparr>fo_path = conflictResolutionPath, fo_status = created\<rparr>)))"

text \<open>
  The second argument of \<^verbatim>\<open>resolveFileConflict\<close> is the entry of the remote
  fingerprint record at the clashed path, \<^const>\<open>None\<close> where the record has none.
  A missing or empty string is falsy.
\<close>

definition truthy :: "string option \<Rightarrow> bool" where
  "truthy v = (case v of None \<Rightarrow> False | Some s \<Rightarrow> s \<noteq> [])"

definition resolveFileConflict ::
  "'s env \<Rightarrow> ClashStatus \<Rightarrow> string option \<Rightarrow> (ConflictResolutionResult, 's) prog" where
  "resolveFileConflict env cl latestRemoteFileSha =
     (if localStatus cl = deleted \<and> remoteStatus cl = REMOVED then
        return \<lparr>cr_path = cs_path cl, noDiff = True, fileOp = None\<rparr>
      else if localStatus cl = deleted then
        bind (getBlob env latestRemoteFileSha) (\<lambda>remoteContent.
        bind (handleLocalDeletionConflict env (cs_path cl) remoteContent) (\<lambda>fop.
          return \<lparr>cr_path = cs_path cl, noDiff = False, fileOp = Some fop\<rparr>))
      else
        bind (prim (VaultReadBinary (cs_path cl)) (vault_readBinary env (cs_path cl))) (\<lambda>buffer.
          let localFileContent = arrayBufferToBase64 buffer
          in if truthy latestRemoteFileSha then
               bind (getBlob env latestRemoteFileSha) (\<lambda>remoteContent.
                 if removeLineEndingsFromBase64String env remoteContent
                      \<noteq> removeLineEndingsFromBase64String env localFileContent
                 then
                   (let report = generateConflictReport (cs_path cl) localFileContent remoteContent;
                        conflictResolutionFolder = ''_fit'';
                        conflictResolutionPath = conflictResolutionFolder @ ''/'' @ cs_path cl
                    in bind (prim (EnsureFolderExists conflictResolutionPath)
                               (vault_ensureFolderExists env conflictResolutionPath)) (\<lambda>u.
                       bind (prim (WriteToLocal conflictResolutionPath (report_remoteContent report))
                               (vault_writeToLocal env conflictResolutionPath
                                  (report_remoteContent report))) (\<lambda>u.
                       return \<lparr>cr_path = cs_path cl, noDiff = False,
                               fileOp = Some \<lparr>fo_path = conflictResolutionPath,
                                               fo_status = created\<rparr>\<rparr>)))
                 else return \<lparr>cr_path = cs_path cl, noDiff = True, fileOp = None\<rparr>)
             else return \<lparr>cr_path = cs_path cl, noDiff = False, fileOp = None\<rparr>))"








section \<open>Auxiliary definitions for the verification\<close>

text \<open>The clash a local change produces against a list of remote changes, if any.\<close>

definition clashOf :: "RemoteChange list \<Rightarrow> LocalChange \<Rightarrow> ClashStatus option" where
  "clashOf rcs l =
     (case find (\<lambda>r. rc_path r = lc_path l) rcs of
        None \<Rightarrow> None
      | Some r \<Rightarrow> Some \<lparr>cs_path = lc_path l, localStatus = lc_status l,
                         remoteStatus = rc_status r\<rparr>)"

text \<open>Reading a file and uploading its base64 content as a new blob, as a push does.\<close>

definition uploadFile :: "'s env \<Rightarrow> string \<Rightarrow> (string, 's) prog" where
  "uploadFile env path =
     bind (prim (VaultReadBinary path) (vault_readBinary env path)) (\<lambda>fileArrayBuf.
       createBlob env (btoa (fromCharCodes fileArrayBuf)) ''base64'')"

subsection \<open>Concrete inputs\<close>

definition demo_local :: "LocalChange list" where
  "demo_local = [\<lparr>lc_path = ''a.md'', lc_status = changed\<rparr>,
                 \<lparr>lc_path = ''b.md'', lc_status = deleted\<rparr>]"

definition demo_remote :: "RemoteChange list" where
  "demo_remote = [\<lparr>rc_path = ''c.md'', rc_status = ADDED, currentSha = None\<rparr>,
                  \<lparr>rc_path = ''b.md'', rc_status = MODIFIED, currentSha = None\<rparr>]"

text \<open>
  A toy instance of the primitives: a compressor that prefixes one header byte, a key
  stream that counts, an authenticated cipher that appends a constant tag, and a byte-per-
  character text codec.
\<close>

definition demo_lib :: crypto_lib where
  "demo_lib =
     \<lparr>sha256 = (\<lambda>bs. take 32 (bs @ replicate 32 0)),
      sha1_hex = (\<lambda>s. s),
      aes_ctr_keystream = (\<lambda>k counter i. of_nat i + 90),
      aes_gcm_encrypt = (\<lambda>k iv p. p @ [119, 119]),
      aes_gcm_decrypt = (\<lambda>k iv c.
         if 2 \<le> length c \<and> drop (length c - 2) c = [119, 119]
         then Inr (take (length c - 2) c)
         else Inl (Thrown ''OperationError'' 0)),
      deflate = (\<lambda>bs. 120 # bs),
      inflate = (\<lambda>bs. case bs of
                         [] \<Rightarrow> Inl (Thrown ''unexpected end of file'' 0)
                       | b # rest \<Rightarrow> if b = 120 then Inr rest
                                     else Inl (Thrown ''incorrect header check'' 0)),
      utf8_encode = charCodes,
      utf8_decode = fromCharCodes,
      base64js_toByteArray = (\<lambda>s.
         if length s mod 4 \<noteq> 0 then Inl (Thrown ''Invalid string'' 0)
         else (case atob s of Inl e \<Rightarrow> Inl e | Inr b \<Rightarrow> Inr (charCodes b)))\<rparr>"

text \<open>A toy outside world: the vault's files, the remote's blobs, trees and head.\<close>

record demo_state =
  ds_files :: "(string \<times> byte list) list"
  ds_blobs :: "(string \<times> string) list"
  ds_trees :: "(string \<times> TreeNode list) list"
  ds_head :: string

definition demo_env :: "demo_state env" where
  "demo_env =
     \<lparr>lib = demo_lib,
      secret = ''k'',
      vault_getFiles = (\<lambda>s. map fst (ds_files s)),
      vault_readBinary = (\<lambda>p s. case map_of (ds_files s) p of
                                   None \<Rightarrow> (Inl (Thrown ''File not found'' 0), s)
                                 | Some b \<Rightarrow> (Inr b, s)),
      vault_ensureFolderExists = (\<lambda>p s. (Inr False, s)),
      vault_writeToLocal = (\<lambda>p c s.
         (Inr \<lparr>fo_path = p, fo_status = created\<rparr>,
          s\<lparr>ds_files := AList.update p (charCodes c) (ds_files s)\<rparr>)),
      vault_updateLocalFiles = (\<lambda>a d s. (Inr [], s)),
      request_getRef = (\<lambda>r s. (Inr (ds_head s), s)),
      request_getTree = (\<lambda>t s. case map_of (ds_trees s) t of
                                  None \<Rightarrow> (Inl (Thrown ''Not Found'' 404), s)
                                | Some ns \<Rightarrow> (Inr ns, s)),
      request_getBlob = (\<lambda>h s. case h of
                                  None \<Rightarrow> (Inl (Thrown ''Not Found'' 404), s)
                                | Some sha \<Rightarrow>
                                    (case map_of (ds_blobs s) sha of
                                       None \<Rightarrow> (Inl (Thrown ''Not Found'' 404), s)
                                     | Some c \<Rightarrow> (Inr c, s))),
      request_createBlob = (\<lambda>c enc s. (Inr c, s\<lparr>ds_blobs := AList.update c c (ds_blobs s)\<rparr>)),
      request_updateRef = (\<lambda>r sha s. (Inr sha, s\<lparr>ds_head := sha\<rparr>)),
      getRandomValues = (\<lambda>n s. (replicate n 0, s)),
      removeLineEndingsFromBase64String = (\<lambda>s. s),
      pull_prepareChangesToExecute = (\<lambda>rcs s. (Inr ([], []), s)),
      push_createCommitFromLocalUpdate = (\<lambda>lu t s. (Inr None, s)),
      push_pushChangedFilesToRemote = (\<lambda>lu s. (Inr None, s)),
      saveLocalStoreCallback = (\<lambda>st s. (Inr (), s))\<rparr>"

definition demo_state0 :: demo_state where
  "demo_state0 =
     \<lparr>ds_files = [(''a.md'', charCodes ''hello'')],
      ds_blobs = [(''b1'', ''plain text'' @ [CHR 0x0A]),
                  (''b2'', ''AAAAAAAAAAAAAAAAaGl3dw=='' @ [CHR 0x0A])],
      ds_trees = [(''c1'',
                   [\<lparr>tn_path = ''README.md'', tn_mode = Some M100644, tn_type = Some blob,
                      tn_sha = Some ''b1''\<rparr>,
                    \<lparr>tn_path = ''IjpyMDo'', tn_mode = Some M100644, tn_type = Some blob,
                      tn_sha = Some ''b2''\<rparr>])],
      ds_head = ''c1''\<rparr>"

text \<open>The status and payload that the pre-sync checks give once the remote tree is known.\<close>

definition classify ::
  "Fit \<Rightarrow> string \<Rightarrow> sha_record \<Rightarrow> sha_record \<Rightarrow> PreSyncCheckResult" where
  "classify fit c cur t =
     (let lcs = compareShaLocal cur (localSha fit);
          updated = (Some c \<noteq> lastFetchedCommitSha fit);
          rcs = getRemoteChanges fit t;
          (st, clashes) =
                 (if lcs \<noteq> [] \<and> \<not> updated then (onlyLocalChanged, [])
                  else if updated \<and> lcs = [] \<and> rcs = [] then (onlyRemoteCommitShaChanged, [])
                  else if lcs = [] \<and> updated then (onlyRemoteChanged, [])
                  else (let cl = getClashedChanges lcs rcs
                        in if cl = [] then (localAndRemoteChangesCompatible, cl)
                           else (localAndRemoteChangesClashed, cl)))
      in ChangeResult st
           \<lparr>remoteChanges = rcs, remoteTreeSha = t,
            latestRemoteCommitSha = c, clashedFiles = clashes\<rparr> lcs cur)"

text \<open>A snapshot that matches the toy world, and one taken before anything was synced.\<close>

definition demo_fit_synced :: Fit where
  "demo_fit_synced =
     \<lparr>branch = ''main'',
      localSha = [(''a.md'', ''a.mdaGVsbG8='')],
      lastFetchedCommitSha = Some ''c1'',
      lastFetchedRemoteSha = [(''README.md'', ''b1''), (''a.md'', ''b2'')]\<rparr>"

definition demo_fit_fresh :: Fit where
  "demo_fit_fresh =
     \<lparr>branch = ''main'', localSha = [], lastFetchedCommitSha = None,
      lastFetchedRemoteSha = []\<rparr>"

text \<open>
  The calls that resolving one clash may make: reading the clashed file, fetching the
  remote blob, ensuring a quarantine folder, and writing under the quarantine prefix.
\<close>

definition allowedCalls :: "ClashStatus \<Rightarrow> string option \<Rightarrow> call set" where
  "allowedCalls cl sha =
     {VaultReadBinary (cs_path cl), RequestGetBlob sha, EnsureFolderExists ''_fit'',
      EnsureFolderExists (''_fit/'' @ cs_path cl)}
     \<union> {WriteToLocal (''_fit/'' @ cs_path cl) content | content. True}"

definition demo_clash :: ClashStatus where
  "demo_clash = \<lparr>cs_path = ''a.md'', localStatus = changed, remoteStatus = MODIFIED\<rparr>"

text \<open>
  Reading a record of calls. A save is a call of the persistence callback; a notice is a
  message shown to the user; the quarantine calls are the two vault calls that
  \<^const>\<open>handleLocalDeletionConflict\<close> issues.
\<close>

fun isSaveCall :: "call \<Rightarrow> bool" where
  "isSaveCall (SaveLocalStore st) = True"
| "isSaveCall c = False"


fun quarantineCall :: "call \<Rightarrow> bool" where
  "quarantineCall (EnsureFolderExists p) = (p = ''_fit'')"
| "quarantineCall (WriteToLocal p c) = startsWith p ''_fit/''"
| "quarantineCall c = False"

text \<open>No call of the list is a save.\<close>

definition nosave :: "(call \<times> bool) list \<Rightarrow> bool" where
  "nosave new = list_all (\<lambda>e. \<not> isSaveCall (fst e)) new"

text \<open>No call of the list is a save, and every call that failed is a quarantine call.\<close>

definition calm :: "(call \<times> bool) list \<Rightarrow> bool" where
  "calm new = list_all (\<lambda>e. \<not> isSaveCall (fst e) \<and> (snd e \<or> quarantineCall (fst e))) new"










text \<open>
  The six-bit values that \<^const>\<open>btoa\<close> encodes a binary string into, without the
  padding.
\<close>

fun sextets_of :: "string \<Rightarrow> nat list" where
  "sextets_of (a # b # c # rest) =
     (let n = of_char a * 65536 + of_char b * 256 + of_char c :: nat
      in (n div 262144) mod 64 # (n div 4096) mod 64 # (n div 64) mod 64 # n mod 64
         # sextets_of rest)"
| "sextets_of [a, b] =
     (let n = of_char a * 1024 + of_char b * 4 :: nat
      in [(n div 4096) mod 64, (n div 64) mod 64, n mod 64])"
| "sextets_of [a] =
     (let n = of_char a * 16 :: nat
      in [(n div 64) mod 64, n mod 64])"
| "sextets_of [] = []"

text \<open>
  The conditions on the primitives under which a path survives the round trip: the
  decompressor inverts the compressor, and the text codec gives the path back.
\<close>

definition lossless :: "crypto_lib \<Rightarrow> bool" where
  "lossless L \<longleftrightarrow> (\<forall>x. inflate L (deflate L x) = Inr x)"

definition validPath :: "crypto_lib \<Rightarrow> string \<Rightarrow> bool" where
  "validPath L p \<longleftrightarrow> utf8_decode L (utf8_encode L p) = p"

section \<open>Verification\<close>

subsection \<open>Running programs\<close>

lemma prim_apply:
  "prim c f (tr, s) = (case f s of (r, s') \<Rightarrow> (r, (tr @ [(c, \<not> isl r)], s')))"
  by (simp add: prim_def)

lemma bind_apply:
  "bind m f w = (case m w of (Inl e, w') \<Rightarrow> (Inl e, w') | (Inr x, w') \<Rightarrow> f x w')"
  by (simp add: bind_def)

lemma bind_Inr: "m w = (Inr x, w') \<Longrightarrow> bind m f w = f x w'"
  by (simp add: bind_def)

lemma bind_Inl: "m w = (Inl e, w') \<Longrightarrow> bind m f w = (Inl e, w')"
  by (simp add: bind_def)

lemma return_apply: "return x w = (Inr x, w)"
  by (simp add: return_def)

lemma throw_apply: "throw e w = (Inl e, w)"
  by (simp add: throw_def)

lemma bind_assoc: "bind (bind m f) g = bind m (\<lambda>x. bind (f x) g)"
  by (rule ext) (simp add: bind_def split: prod.splits sum.splits)

lemma replicate_12: "replicate 12 x = [x, x, x, x, x, x, x, x, x, x, x, x]"
  by (simp add: eval_nat_numeral)

text \<open>Unfolding base64 and the byte conversions on concrete strings.\<close>

lemmas b64_eval = b64_char_def b64chars_def b64_index_def
  is_ascii_whitespace_def drop_padding_def atob_def Let_def
  fromCharCodes_def charCodes_def replaceAll_def stripPadding_def char_of_def bit_Suc_0_iff

lemmas path_eval = decryptPath_def encryptPath_def base64UrlToArrayBuffer_def
  arrayBufferToBase64Url_def importKey_def aes_ctr_def IV_def enumerate_eq_zip

subsection \<open>Clash classification\<close>

lemma indexOf_None: "indexOf xs x = None \<longleftrightarrow> x \<notin> set xs"
  by (induction xs) auto

lemma indexOf_Some: "indexOf xs x = Some i \<Longrightarrow> i < length xs \<and> xs ! i = x"
  by (induction xs arbitrary: i) (auto split: if_splits)

lemma indexOf_find:
  "indexOf (map f xs) k = Some i \<Longrightarrow> find (\<lambda>r. f r = k) xs = Some (xs ! i)"
  by (induction xs arbitrary: i) (auto split: if_splits)

lemma indexOf_find_None:
  "indexOf (map f xs) k = None \<Longrightarrow> find (\<lambda>r. f r = k) xs = None"
  by (induction xs) (auto split: if_splits)

lemma clashed_aux:
  "length pre = k \<Longrightarrow>
   map (\<lambda>(path, localIndex, remoteIndex).
          \<lparr>cs_path = path,
           localStatus = lc_status ((pre @ xs) ! localIndex),
           remoteStatus = rc_status (rcs ! remoteIndex)\<rparr>)
     (List.map_filter
        (\<lambda>(path, localIndex).
           case indexOf (map rc_path rcs) path of
             None \<Rightarrow> None
           | Some remoteIndex \<Rightarrow> Some (path, localIndex, remoteIndex))
        (zip (map lc_path xs) [k..<k + length xs]))
   = List.map_filter (clashOf rcs) xs"
proof (induction xs arbitrary: pre k)
  case Nil
  then show ?case by simp
next
  case (Cons x xs)
  have upt: "[k..<k + length (x # xs)] = k # [Suc k..<Suc k + length xs]"
    by (subst upt_rec) simp
  have here: "(pre @ [x]) @ xs = pre @ x # xs" "(pre @ x # xs) ! k = x"
    using Cons.prems by (simp_all add: nth_append)
  note ih = Cons.IH [of "pre @ [x]" "Suc k", unfolded here]
  show ?case
  proof (cases "indexOf (map rc_path rcs) (lc_path x)")
    case None
    have cx: "clashOf rcs x = None"
      using indexOf_find_None [OF None] by (simp add: clashOf_def)
    show ?thesis
      unfolding upt using ih Cons.prems None cx by (simp del: upt_Suc)
  next
    case (Some j)
    have cx: "clashOf rcs x = Some \<lparr>cs_path = lc_path x, localStatus = lc_status x,
                 remoteStatus = rc_status (rcs ! j)\<rparr>"
      using indexOf_find [OF Some] by (simp add: clashOf_def)
    show ?thesis
      unfolding upt using ih Cons.prems Some cx here by (simp del: upt_Suc)
  qed
qed

lemma getClashedChanges_eq: "getClashedChanges lcs rcs = List.map_filter (clashOf rcs) lcs"
  using clashed_aux [of "[]" 0 lcs rcs] by (simp add: getClashedChanges_def)

lemma find_distinct:
  "distinct (map f xs) \<Longrightarrow> r \<in> set xs \<Longrightarrow> find (\<lambda>y. f y = f r) xs = Some r"
  by (induction xs) (auto simp: image_iff)

lemma set_map_filter: "set (List.map_filter f xs) = {y. \<exists>x \<in> set xs. f x = Some y}"
  by (induction xs) (auto split: option.splits)

lemma clashOf_path: "clashOf rcs l = Some c \<Longrightarrow> cs_path c = lc_path l"
  by (auto simp: clashOf_def split: option.splits)

lemma map_filter_paths_subset:
  "set (map cs_path (List.map_filter (clashOf rcs) xs)) \<subseteq> set (map lc_path xs)"
proof (induction xs)
  case Nil
  show ?case by simp
next
  case (Cons x xs)
  show ?case
  proof (cases "clashOf rcs x")
    case None
    with Cons show ?thesis by auto
  next
    case (Some c)
    with Cons clashOf_path [OF Some] show ?thesis by auto
  qed
qed

lemma map_filter_paths_distinct:
  "distinct (map lc_path xs) \<Longrightarrow> distinct (map cs_path (List.map_filter (clashOf rcs) xs))"
proof (induction xs)
  case Nil
  then show ?case by simp
next
  case (Cons x xs)
  then have ih: "distinct (map cs_path (List.map_filter (clashOf rcs) xs))"
    and fresh: "lc_path x \<notin> set (map lc_path xs)" by simp_all
  show ?case
  proof (cases "clashOf rcs x")
    case None
    with ih show ?thesis by simp
  next
    case (Some c)
    have "cs_path c \<notin> set (map cs_path (List.map_filter (clashOf rcs) xs))"
      using fresh clashOf_path [OF Some] map_filter_paths_subset [of rcs xs] by auto
    with ih Some show ?thesis by simp
  qed
qed

lemma find_Some_mem: "find P xs = Some r \<Longrightarrow> r \<in> set xs \<and> P r"
  by (induction xs) (auto split: if_splits)

lemma clashOf_SomeD:
  "clashOf rcs l = Some c \<Longrightarrow>
     \<exists>r. r \<in> set rcs \<and> rc_path r = lc_path l \<and>
       c = \<lparr>cs_path = lc_path l, localStatus = lc_status l, remoteStatus = rc_status r\<rparr>"
  by (auto simp: clashOf_def split: option.splits dest: find_Some_mem)

lemma in_getClashedChanges:
  "c \<in> set (getClashedChanges lcs rcs) \<longleftrightarrow> (\<exists>l \<in> set lcs. clashOf rcs l = Some c)"
  unfolding getClashedChanges_eq set_map_filter by simp

text \<open>
  Claim C5. For a list of local changes and a list of remote changes, each with at most
  one entry per path, \<^const>\<open>getClashedChanges\<close> returns exactly the clashes built
  from a local change and a remote change with the same path, carrying the local
  change's kind and the remote change's kind; it returns one clash per such path, and
  the paths of its result are the paths present on both sides.
\<close>

theorem getClashedChanges_exact:
  assumes "distinct (map lc_path lcs)" and "distinct (map rc_path rcs)"
  shows "set (getClashedChanges lcs rcs) =
           {\<lparr>cs_path = lc_path l, localStatus = lc_status l, remoteStatus = rc_status r\<rparr> | l r.
              l \<in> set lcs \<and> r \<in> set rcs \<and> lc_path l = rc_path r}
         \<and> distinct (map cs_path (getClashedChanges lcs rcs))
         \<and> set (map cs_path (getClashedChanges lcs rcs)) = set (map lc_path lcs) \<inter> set (map rc_path rcs)"
proof (intro conjI)
  show A: "set (getClashedChanges lcs rcs) =
           {\<lparr>cs_path = lc_path l, localStatus = lc_status l, remoteStatus = rc_status r\<rparr> | l r.
              l \<in> set lcs \<and> r \<in> set rcs \<and> lc_path l = rc_path r}" (is "?L = ?R")
  proof
    show "?L \<subseteq> ?R"
    proof
      fix c assume "c \<in> ?L"
      then obtain l where l: "l \<in> set lcs" and c: "clashOf rcs l = Some c"
        unfolding in_getClashedChanges by blast
      from clashOf_SomeD [OF c] obtain r where "r \<in> set rcs" "rc_path r = lc_path l"
        "c = \<lparr>cs_path = lc_path l, localStatus = lc_status l, remoteStatus = rc_status r\<rparr>"
        by (elim exE conjE)
      with l show "c \<in> ?R"
        unfolding mem_Collect_eq by (intro exI [of _ l] exI [of _ r]) simp
    qed
    show "?R \<subseteq> ?L"
    proof
      fix c assume "c \<in> ?R"
      then obtain l r where c: "c = \<lparr>cs_path = lc_path l, localStatus = lc_status l, remoteStatus = rc_status r\<rparr>"
        and l: "l \<in> set lcs" and r: "r \<in> set rcs" and eq: "lc_path l = rc_path r"
        unfolding mem_Collect_eq by (elim exE conjE)
      have "find (\<lambda>y. rc_path y = lc_path l) rcs = Some r"
        using find_distinct [OF assms(2) r] eq by simp
      then have "clashOf rcs l = Some c"
        by (simp add: clashOf_def c)
      with l show "c \<in> ?L"
        unfolding in_getClashedChanges by blast
    qed
  qed
  show "distinct (map cs_path (getClashedChanges lcs rcs))"
    by (simp add: getClashedChanges_eq map_filter_paths_distinct assms(1))
  show "set (map cs_path (getClashedChanges lcs rcs)) = set (map lc_path lcs) \<inter> set (map rc_path rcs)"
    (is "?P = ?Q")
  proof
    show "?P \<subseteq> ?Q"
    proof
      fix p assume "p \<in> ?P"
      then obtain c where "c \<in> set (getClashedChanges lcs rcs)" and "p = cs_path c" by auto
      then obtain l r where l: "l \<in> set lcs" and r: "r \<in> set rcs"
        and eq: "lc_path l = rc_path r" and p: "p = lc_path l"
        unfolding A mem_Collect_eq by (elim exE conjE) simp
      have "lc_path l \<in> lc_path ` set lcs" using l by (rule imageI)
      moreover have "rc_path r \<in> rc_path ` set rcs" using r by (rule imageI)
      ultimately show "p \<in> ?Q" using eq p by simp
    qed
    show "?Q \<subseteq> ?P"
    proof
      fix p assume "p \<in> ?Q"
      then obtain l r where l: "l \<in> set lcs" and r: "r \<in> set rcs"
        and p: "p = lc_path l" "lc_path l = rc_path r" by auto
      then have "\<lparr>cs_path = lc_path l, localStatus = lc_status l, remoteStatus = rc_status r\<rparr>
                   \<in> set (getClashedChanges lcs rcs)"
        unfolding A mem_Collect_eq by (intro exI [of _ l] exI [of _ r]) simp
      then have "cs_path \<lparr>cs_path = lc_path l, localStatus = lc_status l, remoteStatus = rc_status r\<rparr> \<in> ?P"
        unfolding set_map by (rule imageI)
      then show "p \<in> ?P" using p by simp
    qed
  qed
qed

theorem getClashedChanges_exact_witness:
  "distinct (map lc_path demo_local) \<and> distinct (map rc_path demo_remote)
   \<and> getClashedChanges demo_local demo_remote
       = [\<lparr>cs_path = ''b.md'', localStatus = deleted, remoteStatus = MODIFIED\<rparr>]
   \<and> set (map cs_path (getClashedChanges demo_local demo_remote))
       = set (map lc_path demo_local) \<inter> set (map rc_path demo_remote)"
  using getClashedChanges_exact [of demo_local demo_remote]
  by (simp add: demo_local_def demo_remote_def getClashedChanges_def List.map_filter_def)



subsection \<open>Conflict resolution: both sides deleted\<close>

text \<open>
  Claim C6. For a clash whose local status is \<^verbatim>\<open>deleted\<close> and whose remote status
  is \<^verbatim>\<open>REMOVED\<close>, \<^const>\<open>resolveFileConflict\<close> returns the clash's path with
  \<^verbatim>\<open>noDiff = true\<close> and no file operation, and makes no call at all: the record of
  calls and the outside world are as before.
\<close>

theorem resolveFileConflict_both_removed:
  assumes "localStatus cl = deleted" and "remoteStatus cl = REMOVED"
  shows "resolveFileConflict env cl latestRemoteFileSha w
           = (Inr \<lparr>cr_path = cs_path cl, noDiff = True, fileOp = None\<rparr>, w)"
  using assms by (simp add: resolveFileConflict_def return_def)

theorem resolveFileConflict_both_removed_witness:
  "resolveFileConflict demo_env
     \<lparr>cs_path = ''b.md'', localStatus = deleted, remoteStatus = REMOVED\<rparr> None ([], demo_state0)
   = (Inr \<lparr>cr_path = ''b.md'', noDiff = True, fileOp = None\<rparr>, ([], demo_state0))"
  using resolveFileConflict_both_removed
    [of "\<lparr>cs_path = ''b.md'', localStatus = deleted, remoteStatus = REMOVED\<rparr>"
        demo_env None "([], demo_state0)"]
  by simp

subsection \<open>Fetching a blob\<close>

text \<open>
  Claim C9. When the request for a blob succeeds, \<^const>\<open>getBlob\<close> does not fail: if
  decrypting the fetched content (with its line feeds removed) fails, it returns the
  content as fetched, still encrypted; if decrypting succeeds, it returns the plaintext.
  The request is the only call it makes.
\<close>

theorem getBlob_fallback:
  assumes "request_getBlob env file_sha s = (Inr content, s')"
  shows "(\<forall>e. decrypt (lib env) (secret env) (filter (\<lambda>c. c \<noteq> CHR 0x0A) content) = Inl e
            \<longrightarrow> getBlob env file_sha (tr, s)
                  = (Inr content, (tr @ [(RequestGetBlob file_sha, True)], s')))
       \<and> (\<forall>plain. decrypt (lib env) (secret env) (filter (\<lambda>c. c \<noteq> CHR 0x0A) content) = Inr plain
            \<longrightarrow> getBlob env file_sha (tr, s)
                  = (Inr plain, (tr @ [(RequestGetBlob file_sha, True)], s')))"
  using assms by (simp add: getBlob_def bind_apply prim_apply return_apply)

theorem getBlob_fallback_witness:
  "getBlob demo_env (Some ''b1'') ([], demo_state0)
     = (Inr (''plain text'' @ [CHR 0x0A]), ([(RequestGetBlob (Some ''b1''), True)], demo_state0))
   \<and> getBlob demo_env (Some ''b2'') ([], demo_state0)
     = (Inr ''hi'', ([(RequestGetBlob (Some ''b2''), True)], demo_state0))"
proof -
  have r1: "request_getBlob demo_env (Some ''b1'') demo_state0
              = (Inr (''plain text'' @ [CHR 0x0A]), demo_state0)"
    by (simp add: demo_env_def demo_state0_def)
  have d1: "decrypt (lib demo_env) (secret demo_env)
              (filter (\<lambda>c. c \<noteq> CHR 0x0A) (''plain text'' @ [CHR 0x0A]))
            = Inl (Thrown ''Invalid string'' 0)"
    by (simp add: decrypt_def demo_env_def demo_lib_def)
  have r2: "request_getBlob demo_env (Some ''b2'') demo_state0
              = (Inr (''AAAAAAAAAAAAAAAAaGl3dw=='' @ [CHR 0x0A]), demo_state0)"
    by (simp add: demo_env_def demo_state0_def)
  have d2: "decrypt (lib demo_env) (secret demo_env)
              (filter (\<lambda>c. c \<noteq> CHR 0x0A) (''AAAAAAAAAAAAAAAAaGl3dw=='' @ [CHR 0x0A]))
            = Inr ''hi''"
    by (simp add: decrypt_def demo_env_def demo_lib_def importKey_def b64_eval)
  from getBlob_fallback [OF r1, of "[]"] d1 getBlob_fallback [OF r2, of "[]"] d2
  show ?thesis by simp
qed

subsection \<open>Building a tree node for a local change\<close>

lemma createTreeNodeFromFile_deleted:
  "lc_status ch = deleted \<Longrightarrow>
   createTreeNodeFromFile env ch remoteTree w
     = (Inr (if \<forall>node \<in> set remoteTree. tn_path node \<noteq> lc_path ch then None
             else Some \<lparr>tn_path = lc_path ch, tn_mode = Some M100644, tn_type = Some blob,
                        tn_sha = None\<rparr>), w)"
  by (simp add: createTreeNodeFromFile_def return_def list_all_iff Let_def)

lemma createTreeNodeFromFile_upload:
  "lc_status ch \<noteq> deleted \<Longrightarrow>
   createTreeNodeFromFile env ch remoteTree
     = bind (uploadFile env (lc_path ch)) (\<lambda>blobSha.
         if \<exists>node \<in> set remoteTree. tn_path node = lc_path ch \<and> tn_sha node = Some blobSha
         then return None
         else return (Some \<lparr>tn_path = lc_path ch, tn_mode = Some M100644, tn_type = Some blob,
                             tn_sha = Some blobSha\<rparr>))"
  by (simp add: createTreeNodeFromFile_def uploadFile_def bind_assoc list_ex_iff Let_def)

text \<open>
  Claim C7. \<^const>\<open>createTreeNodeFromFile\<close> returns no node in exactly two cases. For a
  change with status \<^verbatim>\<open>deleted\<close> it makes no call and returns no node when no node
  of the remote tree has the change's path, and otherwise the deletion node: a blob node
  of mode 100644 with the path and a null content id. For any other change it reads the
  file and uploads its content as a new blob (\<^const>\<open>uploadFile\<close>); it returns no node
  when a node of the remote tree has the same path and the new blob's content id, and
  otherwise a blob node of mode 100644 with the path and that content id. A failure of
  the read or of the upload is the failure of the whole.
\<close>

theorem createTreeNodeFromFile_skips:
  "(lc_status ch = deleted \<longrightarrow>
      createTreeNodeFromFile env ch remoteTree w
        = (Inr (if \<forall>node \<in> set remoteTree. tn_path node \<noteq> lc_path ch then None
                else Some \<lparr>tn_path = lc_path ch, tn_mode = Some M100644, tn_type = Some blob,
                           tn_sha = None\<rparr>), w))
   \<and> (lc_status ch \<noteq> deleted \<longrightarrow>
        (\<forall>blobSha w'. uploadFile env (lc_path ch) w = (Inr blobSha, w') \<longrightarrow>
           createTreeNodeFromFile env ch remoteTree w
             = (Inr (if \<exists>node \<in> set remoteTree.
                          tn_path node = lc_path ch \<and> tn_sha node = Some blobSha
                     then None
                     else Some \<lparr>tn_path = lc_path ch, tn_mode = Some M100644,
                                tn_type = Some blob, tn_sha = Some blobSha\<rparr>), w'))
      \<and> (\<forall>e w'. uploadFile env (lc_path ch) w = (Inl e, w') \<longrightarrow>
           createTreeNodeFromFile env ch remoteTree w = (Inl e, w')))"
proof (intro conjI impI allI)
  assume "lc_status ch = deleted"
  then show "createTreeNodeFromFile env ch remoteTree w
        = (Inr (if \<forall>node \<in> set remoteTree. tn_path node \<noteq> lc_path ch then None
                else Some \<lparr>tn_path = lc_path ch, tn_mode = Some M100644, tn_type = Some blob,
                           tn_sha = None\<rparr>), w)"
    by (rule createTreeNodeFromFile_deleted)
next
  fix blobSha w'
  assume nd: "lc_status ch \<noteq> deleted" and up: "uploadFile env (lc_path ch) w = (Inr blobSha, w')"
  show "createTreeNodeFromFile env ch remoteTree w
             = (Inr (if \<exists>node \<in> set remoteTree.
                          tn_path node = lc_path ch \<and> tn_sha node = Some blobSha
                     then None
                     else Some \<lparr>tn_path = lc_path ch, tn_mode = Some M100644,
                                tn_type = Some blob, tn_sha = Some blobSha\<rparr>), w')"
    unfolding createTreeNodeFromFile_upload [OF nd]
    using up by (simp add: bind_apply return_def)
next
  fix e w'
  assume nd: "lc_status ch \<noteq> deleted" and up: "uploadFile env (lc_path ch) w = (Inl e, w')"
  show "createTreeNodeFromFile env ch remoteTree w = (Inl e, w')"
    unfolding createTreeNodeFromFile_upload [OF nd]
    using up by (simp add: bind_apply)
qed

theorem createTreeNodeFromFile_skips_witness:
  "createTreeNodeFromFile demo_env \<lparr>lc_path = ''b.md'', lc_status = deleted\<rparr> []
       ([], demo_state0)
     = (Inr None, ([], demo_state0))
   \<and> createTreeNodeFromFile demo_env \<lparr>lc_path = ''b.md'', lc_status = deleted\<rparr>
       [\<lparr>tn_path = ''b.md'', tn_mode = Some M100644, tn_type = Some blob, tn_sha = Some ''b1''\<rparr>]
       ([], demo_state0)
     = (Inr (Some \<lparr>tn_path = ''b.md'', tn_mode = Some M100644, tn_type = Some blob,
                    tn_sha = None\<rparr>), ([], demo_state0))
   \<and> fst (createTreeNodeFromFile demo_env \<lparr>lc_path = ''a.md'', lc_status = changed\<rparr> []
         ([], demo_state0))
     = Inr (Some \<lparr>tn_path = ''a.md'', tn_mode = Some M100644, tn_type = Some blob,
                   tn_sha = Some ''AAAAAAAAAAAAAAAAYUdWc2JHOD13dw==''\<rparr>)
   \<and> fst (createTreeNodeFromFile demo_env \<lparr>lc_path = ''a.md'', lc_status = changed\<rparr>
         [\<lparr>tn_path = ''a.md'', tn_mode = Some M100644, tn_type = Some blob,
            tn_sha = Some ''AAAAAAAAAAAAAAAAYUdWc2JHOD13dw==''\<rparr>]
         ([], demo_state0))
     = Inr None"
proof -
  have "fst (uploadFile demo_env ''a.md'' ([], demo_state0))
          = Inr ''AAAAAAAAAAAAAAAAYUdWc2JHOD13dw==''"
    by (simp add: uploadFile_def createBlob_def encrypt_def bind_apply prim_apply
        demo_env_def demo_state0_def demo_lib_def importKey_def replicate_12 b64_eval)
  then obtain tr' s' where up: "uploadFile demo_env ''a.md'' ([], demo_state0)
          = (Inr ''AAAAAAAAAAAAAAAAYUdWc2JHOD13dw=='', (tr', s'))"
    by (cases "uploadFile demo_env ''a.md'' ([], demo_state0)") auto
  from createTreeNodeFromFile_skips
         [of "\<lparr>lc_path = ''b.md'', lc_status = deleted\<rparr>" demo_env "[]" "([], demo_state0)"]
       createTreeNodeFromFile_skips
         [of "\<lparr>lc_path = ''b.md'', lc_status = deleted\<rparr>" demo_env
             "[\<lparr>tn_path = ''b.md'', tn_mode = Some M100644, tn_type = Some blob,
                tn_sha = Some ''b1''\<rparr>]" "([], demo_state0)"]
       createTreeNodeFromFile_skips
         [of "\<lparr>lc_path = ''a.md'', lc_status = changed\<rparr>" demo_env "[]" "([], demo_state0)"]
       createTreeNodeFromFile_skips
         [of "\<lparr>lc_path = ''a.md'', lc_status = changed\<rparr>" demo_env
             "[\<lparr>tn_path = ''a.md'', tn_mode = Some M100644, tn_type = Some blob,
                tn_sha = Some ''AAAAAAAAAAAAAAAAYUdWc2JHOD13dw==''\<rparr>]" "([], demo_state0)"]
       up
  show ?thesis by simp
qed

subsection \<open>Fetching a tree\<close>

lemma getTree_apply:
  "request_getTree env tree_sha s = (Inr arr, s') \<Longrightarrow>
   getTree env tree_sha (tr, s)
     = (Inr (map (decryptNode env) arr), (tr @ [(RequestGetTree tree_sha, True)], s'))"
  by (simp add: getTree_def bind_apply prim_apply return_apply)

text \<open>
  Claim C8, as the code has it. When the request for a tree succeeds,
  \<^const>\<open>getTree\<close> returns as many nodes as were fetched, in their order: a node whose
  path fails to decrypt is returned unchanged, with the path it was fetched with, and
  every other node is returned with its path decrypted. The fetch does not fail, and the
  request is the only call.
\<close>

theorem getTree_keeps_every_node:
  assumes "request_getTree env tree_sha s = (Inr arr, s')"
  shows "\<exists>nodes. getTree env tree_sha (tr, s)
                    = (Inr nodes, (tr @ [(RequestGetTree tree_sha, True)], s'))
          \<and> length nodes = length arr
          \<and> (\<forall>i < length arr.
                (case decryptPath (lib env) (secret env) (tn_path (arr ! i)) of
                   Inl e \<Rightarrow> nodes ! i = arr ! i
                 | Inr p \<Rightarrow> nodes ! i = (arr ! i)\<lparr>tn_path := p\<rparr>))"
proof (intro exI conjI)
  show "getTree env tree_sha (tr, s)
          = (Inr (map (decryptNode env) arr), (tr @ [(RequestGetTree tree_sha, True)], s'))"
    by (rule getTree_apply [OF assms])
  show "length (map (decryptNode env) arr) = length arr" by simp
  show "\<forall>i < length arr.
          (case decryptPath (lib env) (secret env) (tn_path (arr ! i)) of
             Inl e \<Rightarrow> map (decryptNode env) arr ! i = arr ! i
           | Inr p \<Rightarrow> map (decryptNode env) arr ! i = (arr ! i)\<lparr>tn_path := p\<rparr>)"
    by (simp add: decryptNode_def split: sum.splits)
qed

theorem getTree_keeps_every_node_witness:
  "fst (getTree demo_env ''c1'' ([], demo_state0))
     = Inr [\<lparr>tn_path = ''README.md'', tn_mode = Some M100644, tn_type = Some blob,
              tn_sha = Some ''b1''\<rparr>,
            \<lparr>tn_path = ''a.md'', tn_mode = Some M100644, tn_type = Some blob,
              tn_sha = Some ''b2''\<rparr>]"
proof -
  have r: "request_getTree demo_env ''c1'' demo_state0
             = (Inr [\<lparr>tn_path = ''README.md'', tn_mode = Some M100644, tn_type = Some blob,
                       tn_sha = Some ''b1''\<rparr>,
                     \<lparr>tn_path = ''IjpyMDo'', tn_mode = Some M100644, tn_type = Some blob,
                       tn_sha = Some ''b2''\<rparr>], demo_state0)"
    by (simp add: demo_env_def demo_state0_def)
  have d0: "decryptPath (lib demo_env) (secret demo_env) ''README.md''
              = Inl (Thrown ''InvalidCharacterError'' 0)"
    by (simp add: demo_env_def demo_lib_def path_eval b64_eval)
  have d1: "decryptPath (lib demo_env) (secret demo_env) ''IjpyMDo'' = Inr ''a.md''"
    by (simp add: demo_env_def demo_lib_def path_eval b64_eval)
  from getTree_keeps_every_node [OF r, of "[]"] obtain nodes where
    g: "getTree demo_env ''c1'' ([], demo_state0)
          = (Inr nodes, ([] @ [(RequestGetTree ''c1'', True)], demo_state0))"
    and len: "length nodes = length
          [\<lparr>tn_path = ''README.md'', tn_mode = Some M100644, tn_type = Some blob,
             tn_sha = Some ''b1''\<rparr>,
           \<lparr>tn_path = ''IjpyMDo'', tn_mode = Some M100644, tn_type = Some blob,
             tn_sha = Some ''b2''\<rparr>]"
    and q: "\<forall>i < length
          [\<lparr>tn_path = ''README.md'', tn_mode = Some M100644, tn_type = Some blob,
             tn_sha = Some ''b1''\<rparr>,
           \<lparr>tn_path = ''IjpyMDo'', tn_mode = Some M100644, tn_type = Some blob,
             tn_sha = Some ''b2''\<rparr>].
        (case decryptPath (lib demo_env) (secret demo_env)
                (tn_path ([\<lparr>tn_path = ''README.md'', tn_mode = Some M100644,
                             tn_type = Some blob, tn_sha = Some ''b1''\<rparr>,
                           \<lparr>tn_path = ''IjpyMDo'', tn_mode = Some M100644,
                             tn_type = Some blob, tn_sha = Some ''b2''\<rparr>] ! i)) of
           Inl e \<Rightarrow> nodes ! i
             = [\<lparr>tn_path = ''README.md'', tn_mode = Some M100644, tn_type = Some blob,
                  tn_sha = Some ''b1''\<rparr>,
                \<lparr>tn_path = ''IjpyMDo'', tn_mode = Some M100644, tn_type = Some blob,
                  tn_sha = Some ''b2''\<rparr>] ! i
         | Inr p \<Rightarrow> nodes ! i
             = ([\<lparr>tn_path = ''README.md'', tn_mode = Some M100644, tn_type = Some blob,
                   tn_sha = Some ''b1''\<rparr>,
                 \<lparr>tn_path = ''IjpyMDo'', tn_mode = Some M100644, tn_type = Some blob,
                   tn_sha = Some ''b2''\<rparr>] ! i)\<lparr>tn_path := p\<rparr>)"
    by blast
  have n: "length nodes = 2" using len by simp
  have at0: "nodes ! 0 = \<lparr>tn_path = ''README.md'', tn_mode = Some M100644,
                           tn_type = Some blob, tn_sha = Some ''b1''\<rparr>"
    using q [rule_format, of 0] d0 by simp
  have at1: "nodes ! 1 = \<lparr>tn_path = ''a.md'', tn_mode = Some M100644,
                           tn_type = Some blob, tn_sha = Some ''b2''\<rparr>"
    using q [rule_format, of 1] d1 by simp
  have "\<exists>a b. nodes = [a, b]"
    using n by (auto simp: length_Suc_conv numeral_2_eq_2)
  then obtain a b where ab: "nodes = [a, b]" by blast
  with g at0 at1 show ?thesis by simp
qed

text \<open>
  Claim C8 as stated fails: the first node of this tree has a path that does not
  decrypt, and it is in the tree that \<^const>\<open>getTree\<close> returns.
\<close>

theorem getTree_keeps_undecryptable_node:
  "decryptPath (lib demo_env) (secret demo_env) ''README.md''
     = Inl (Thrown ''InvalidCharacterError'' 0)
   \<and> getTree demo_env ''c1'' ([], demo_state0)
     = (Inr [\<lparr>tn_path = ''README.md'', tn_mode = Some M100644, tn_type = Some blob,
               tn_sha = Some ''b1''\<rparr>,
             \<lparr>tn_path = ''a.md'', tn_mode = Some M100644, tn_type = Some blob,
               tn_sha = Some ''b2''\<rparr>],
        ([(RequestGetTree ''c1'', True)], demo_state0))"
  by (simp add: getTree_def bind_apply prim_apply return_apply decryptNode_def
      demo_env_def demo_state0_def demo_lib_def path_eval b64_eval)

subsection \<open>Change detection and the pre-sync checks\<close>

lemma distinct_fromEntries_aux:
  "distinct (map fst m) \<Longrightarrow>
   distinct (map fst (foldl (\<lambda>m (k, v). AList.update k v m) m es))"
  by (induction es arbitrary: m) (auto simp: distinct_update split: prod.splits)

lemma distinct_fromEntries: "distinct (map fst (fromEntries es))"
  by (simp add: fromEntries_def distinct_fromEntries_aux)

lemma map_filter_Nil_iff: "List.map_filter f xs = [] \<longleftrightarrow> (\<forall>x \<in> set xs. f x = None)"
  by (induction xs) (auto split: option.splits)

lemma compareSha_Nil_iff:
  assumes "distinct (map fst cur)"
  shows "compareSha cur prev = [] \<longleftrightarrow> map_of cur = map_of prev"
proof
  assume eq: "map_of cur = map_of prev"
  have a: "\<forall>x \<in> set cur. (case x of (p, h) \<Rightarrow> case map_of prev p of
                    None \<Rightarrow> Some (p, created)
                  | Some h' \<Rightarrow> if h \<noteq> h' then Some (p, changed) else None) = None"
  proof
    fix x assume x: "x \<in> set cur"
    obtain p h where ph: "x = (p, h)" by (cases x)
    have "map_of cur p = Some h" using assms x ph by simp
    then have "map_of prev p = Some h" using eq by simp
    then show "(case x of (p, h) \<Rightarrow> case map_of prev p of
                    None \<Rightarrow> Some (p, created)
                  | Some h' \<Rightarrow> if h \<noteq> h' then Some (p, changed) else None) = None"
      by (simp add: ph)
  qed
  have b: "\<forall>x \<in> set prev. (case x of (p, h) \<Rightarrow> case map_of cur p of
                      None \<Rightarrow> Some (p, deleted)
                    | Some h' \<Rightarrow> None) = None"
  proof
    fix x assume x: "x \<in> set prev"
    obtain p h where ph: "x = (p, h)" by (cases x)
    have "map_of prev p \<noteq> None" using x ph by (metis map_of_eq_None_iff fst_conv image_eqI)
    then have "map_of cur p \<noteq> None" using eq by simp
    then show "(case x of (p, h) \<Rightarrow> case map_of cur p of
                      None \<Rightarrow> Some (p, deleted)
                    | Some h' \<Rightarrow> None) = None"
      by (auto simp: ph)
  qed
  show "compareSha cur prev = []"
    unfolding compareSha_def using a b by (simp add: map_filter_Nil_iff)
next
  assume e: "compareSha cur prev = []"
  then have a: "\<And>p h. (p, h) \<in> set cur \<Longrightarrow> map_of prev p = Some h"
    and b: "\<And>p h. (p, h) \<in> set prev \<Longrightarrow> map_of cur p \<noteq> None"
    unfolding compareSha_def
    by (auto simp: map_filter_Nil_iff split: option.splits if_splits)
  show "map_of cur = map_of prev"
  proof
    fix q
    show "map_of cur q = map_of prev q"
    proof (cases "map_of cur q")
      case None
      show ?thesis
      proof (cases "map_of prev q")
        case None
        with \<open>map_of cur q = None\<close> show ?thesis by simp
      next
        case (Some h)
        then have "(q, h) \<in> set prev" by (rule map_of_SomeD)
        from b [OF this] \<open>map_of cur q = None\<close> show ?thesis by simp
      qed
    next
      case (Some h)
      then have "(q, h) \<in> set cur" by (rule map_of_SomeD)
      from a [OF this] Some show ?thesis by simp
    qed
  qed
qed

lemma compareShaLocal_Nil_iff:
  "distinct (map fst cur) \<Longrightarrow> compareShaLocal cur prev = [] \<longleftrightarrow> map_of cur = map_of prev"
  by (simp add: compareShaLocal_def compareSha_Nil_iff)

text \<open>The calls of a successful fingerprint scan.\<close>

lemma mapM_Cons_Inr:
  assumes "mapM f (p # ps) w = (Inr zs, w')"
  obtains y ys w1 where "f p w = (Inr y, w1)" and "mapM f ps w1 = (Inr ys, w')" and "zs = y # ys"
proof -
  obtain r w1 where fp: "f p w = (r, w1)" by (cases "f p w")
  show ?thesis
  proof (cases r)
    case (Inl e)
    with fp assms show ?thesis by (simp add: bind_def)
  next
    case (Inr y)
    obtain r2 w2 where m: "mapM f ps w1 = (r2, w2)" by (cases "mapM f ps w1")
    show ?thesis
    proof (cases r2)
      case (Inl e)
      with fp Inr m assms show ?thesis by (simp add: bind_def)
    next
      case (Inr ys)
      with fp \<open>r = Inr y\<close> m assms have "w2 = w'" "zs = y # ys"
        by (simp_all add: bind_def return_def)
      with fp \<open>r = Inr y\<close> m Inr that show ?thesis by simp
    qed
  qed
qed

lemma mapM_trace:
  assumes step: "\<And>p tr s y tr' s'. f p (tr, s) = (Inr y, (tr', s')) \<Longrightarrow> tr' = tr @ [(c p, True)]"
  shows "mapM f ps (tr, s) = (Inr ys, (tr', s')) \<Longrightarrow> tr' = tr @ map (\<lambda>p. (c p, True)) ps"
proof (induction ps arbitrary: tr s ys)
  case Nil
  then show ?case by (simp add: return_def)
next
  case (Cons p ps)
  from Cons.prems obtain y ys' w1 where
    fp: "f p (tr, s) = (Inr y, w1)" and m: "mapM f ps w1 = (Inr ys', (tr', s'))"
    by (rule mapM_Cons_Inr)
  obtain tr1 s1 where w1: "w1 = (tr1, s1)" by (cases w1)
  from step [OF fp [unfolded w1]] have "tr1 = tr @ [(c p, True)]" .
  with Cons.IH [OF m [unfolded w1]] show ?case by simp
qed

lemma fingerprint_step:
  "bind (computeFileLocalSha env p) (\<lambda>h. return (p, h)) (tr, s) = (Inr y, (tr', s'))
     \<Longrightarrow> tr' = tr @ [(VaultReadBinary p, True)]"
  by (cases "vault_readBinary env p s"; cases "fst (vault_readBinary env p s)")
     (auto simp: bind_def prim_def computeFileLocalSha_def return_def)

lemma computeLocalSha_success:
  assumes "computeLocalSha env (tr, s) = (Inr cur, (tr', s'))"
  shows "distinct (map fst cur)
       \<and> tr' = tr @ (VaultGetFiles, True)
               # map (\<lambda>p. (VaultReadBinary p, True))
                   (filter (\<lambda>p. \<not> startsWith p ''_fit/'' \<and> p \<noteq> []) (vault_getFiles env s))"
proof -
  let ?ps = "filter (\<lambda>p. \<not> startsWith p ''_fit/'' \<and> p \<noteq> []) (vault_getFiles env s)"
  let ?f = "\<lambda>p. bind (computeFileLocalSha env p) (\<lambda>h. return (p, h))"
  have unf: "computeLocalSha env (tr, s)
      = bind (mapM ?f ?ps) (\<lambda>entries. return (fromEntries entries))
          (tr @ [(VaultGetFiles, True)], s)"
    by (simp add: computeLocalSha_def bind_def prim_def Let_def)
  obtain r w1 where mm: "mapM ?f ?ps (tr @ [(VaultGetFiles, True)], s) = (r, w1)"
    by (cases "mapM ?f ?ps (tr @ [(VaultGetFiles, True)], s)")
  from assms unf mm obtain es where
    m: "mapM ?f ?ps (tr @ [(VaultGetFiles, True)], s) = (Inr es, (tr', s'))"
    and c: "cur = fromEntries es"
    by (cases r) (auto simp: bind_def return_def)
  from mapM_trace [where c = VaultReadBinary, OF fingerprint_step m] c show ?thesis
    by (simp add: distinct_fromEntries)
qed

lemma getLatestRemoteCommitSha_success:
  assumes "getLatestRemoteCommitSha env fit (tr, s) = (Inr c, (tr', s'))"
  shows "tr' = tr @ [(RequestGetRef (''heads/'' @ branch fit), True)]"
  using assms
  by (auto simp: getLatestRemoteCommitSha_def getRef_def try_catch_def prim_apply throw_apply
      split: prod.splits sum.splits)


lemma performPreSyncChecks_reduce:
  assumes "computeLocalSha env w0 = (Inr cur, w1)"
      and "getLatestRemoteCommitSha env fit w1 = (Inr c, w2)"
  shows "performPreSyncChecks env fit w0
           = (if compareShaLocal cur (localSha fit) = [] \<and> Some c = lastFetchedCommitSha fit
              then (Inr InSyncResult, w2)
              else bind (getRemoteTreeSha env c) (\<lambda>t. return (classify fit c cur t)) w2)"
  using assms
  by (auto simp: performPreSyncChecks_def bind_def getLocalChanges_def return_def
      remoteUpdated_def classify_def Let_def split: prod.splits sum.splits)

lemma classify_exact:
  "\<not> (compareShaLocal cur (localSha fit) = [] \<and> Some c = lastFetchedCommitSha fit) \<Longrightarrow>
   classify fit c cur t
     = ChangeResult
         (if compareShaLocal cur (localSha fit) = [] then
            (if getRemoteChanges fit t = [] then onlyRemoteCommitShaChanged
             else onlyRemoteChanged)
          else if lastFetchedCommitSha fit = Some c then onlyLocalChanged
          else if getClashedChanges (compareShaLocal cur (localSha fit))
                    (getRemoteChanges fit t) = []
          then localAndRemoteChangesCompatible
          else localAndRemoteChangesClashed)
         \<lparr>remoteChanges = getRemoteChanges fit t, remoteTreeSha = t,
          latestRemoteCommitSha = c,
          clashedFiles =
            (if compareShaLocal cur (localSha fit) = [] \<or> lastFetchedCommitSha fit = Some c
             then []
             else getClashedChanges (compareShaLocal cur (localSha fit))
                    (getRemoteChanges fit t))\<rparr>
         (compareShaLocal cur (localSha fit)) cur"
  by (auto simp: classify_def Let_def)

text \<open>
  Claim C2. Let the fingerprint scan succeed with the map \<open>cur\<close> and the fetch of the
  remote ref succeed with the commit id \<open>c\<close>. If \<open>cur\<close> equals the last-synced
  snapshot as a map and \<open>c\<close> is the last-fetched commit id, then
  \<^const>\<open>getLocalChanges\<close> returns the empty list and \<^const>\<open>performPreSyncChecks\<close>
  returns \<^verbatim>\<open>inSync\<close>, having made no call but the listing of the vault, the read
  of each scanned file and the fetch of the ref. Otherwise, when the fetch of the remote
  tree succeeds, it returns one of the five other statuses, and which one is fixed: with
  no local change it is \<^verbatim>\<open>onlyRemoteCommitShaChanged\<close> when the remote tree has no
  change and \<^verbatim>\<open>onlyRemoteChanged\<close> when it has; with local changes it is
  \<^verbatim>\<open>onlyLocalChanged\<close> when the commit id is the last-fetched one, and otherwise
  \<^verbatim>\<open>localAndRemoteChangesCompatible\<close> or \<^verbatim>\<open>localAndRemoteChangesClashed\<close> as
  the list of clashes is empty or not. With the status come the remote update (the remote
  changes against the last-fetched fingerprints, the remote tree's fingerprints, the
  commit id, and the clashes, computed only when both sides changed), the local changes
  and the current local fingerprints. When the fetch of the tree fails, its failure is
  the result.
\<close>

theorem performPreSyncChecks_classification:
  assumes loc: "computeLocalSha env (tr0, s0) = (Inr cur, (tr1, s1))"
      and rem: "getLatestRemoteCommitSha env fit (tr1, s1) = (Inr c, (tr2, s2))"
  shows "(map_of cur = map_of (localSha fit) \<and> lastFetchedCommitSha fit = Some c \<longrightarrow>
            getLocalChanges env fit (Some cur) (tr1, s1) = (Inr [], (tr1, s1))
          \<and> performPreSyncChecks env fit (tr0, s0) = (Inr InSyncResult, (tr2, s2))
          \<and> tr2 = tr0 @ (VaultGetFiles, True)
                    # map (\<lambda>p. (VaultReadBinary p, True))
                        (filter (\<lambda>p. \<not> startsWith p ''_fit/'' \<and> p \<noteq> [])
                           (vault_getFiles env s0))
                    @ [(RequestGetRef (''heads/'' @ branch fit), True)])
       \<and> (\<not> (map_of cur = map_of (localSha fit) \<and> lastFetchedCommitSha fit = Some c) \<longrightarrow>
            (\<forall>t w3. getRemoteTreeSha env c (tr2, s2) = (Inr t, w3) \<longrightarrow>
               performPreSyncChecks env fit (tr0, s0)
                 = (Inr (ChangeResult
                           (if compareShaLocal cur (localSha fit) = [] then
                              (if getRemoteChanges fit t = [] then onlyRemoteCommitShaChanged
                               else onlyRemoteChanged)
                            else if lastFetchedCommitSha fit = Some c then onlyLocalChanged
                            else if getClashedChanges (compareShaLocal cur (localSha fit))
                                      (getRemoteChanges fit t) = []
                            then localAndRemoteChangesCompatible
                            else localAndRemoteChangesClashed)
                           \<lparr>remoteChanges = getRemoteChanges fit t, remoteTreeSha = t,
                            latestRemoteCommitSha = c,
                            clashedFiles =
                              (if compareShaLocal cur (localSha fit) = []
                                  \<or> lastFetchedCommitSha fit = Some c
                               then []
                               else getClashedChanges (compareShaLocal cur (localSha fit))
                                      (getRemoteChanges fit t))\<rparr>
                           (compareShaLocal cur (localSha fit)) cur), w3))
          \<and> (\<forall>e w3. getRemoteTreeSha env c (tr2, s2) = (Inl e, w3) \<longrightarrow>
                 performPreSyncChecks env fit (tr0, s0) = (Inl e, w3)))"
proof -
  note cl = computeLocalSha_success [OF loc]
  then have dist: "distinct (map fst cur)" by simp
  note nil = compareShaLocal_Nil_iff [OF dist, of "localSha fit"]
  note red = performPreSyncChecks_reduce [OF loc rem]
  show ?thesis
  proof (intro conjI impI allI)
    assume h: "map_of cur = map_of (localSha fit) \<and> lastFetchedCommitSha fit = Some c"
    then have e: "compareShaLocal cur (localSha fit) = []" using nil by simp
    show "getLocalChanges env fit (Some cur) (tr1, s1) = (Inr [], (tr1, s1))"
      by (simp add: getLocalChanges_def bind_def return_def e)
    show "performPreSyncChecks env fit (tr0, s0) = (Inr InSyncResult, (tr2, s2))"
      using red e h by simp
    show "tr2 = tr0 @ (VaultGetFiles, True)
                    # map (\<lambda>p. (VaultReadBinary p, True))
                        (filter (\<lambda>p. \<not> startsWith p ''_fit/'' \<and> p \<noteq> [])
                           (vault_getFiles env s0))
                    @ [(RequestGetRef (''heads/'' @ branch fit), True)]"
      using cl getLatestRemoteCommitSha_success [OF rem] by simp
  next
    fix t w3
    assume h: "\<not> (map_of cur = map_of (localSha fit) \<and> lastFetchedCommitSha fit = Some c)"
      and t: "getRemoteTreeSha env c (tr2, s2) = (Inr t, w3)"
    from h nil have ne: "\<not> (compareShaLocal cur (localSha fit) = [] \<and> Some c = lastFetchedCommitSha fit)"
      by auto
    have "performPreSyncChecks env fit (tr0, s0) = (Inr (classify fit c cur t), w3)"
      using red ne t by (simp add: bind_def return_def)
    then show "performPreSyncChecks env fit (tr0, s0)
                 = (Inr (ChangeResult
                           (if compareShaLocal cur (localSha fit) = [] then
                              (if getRemoteChanges fit t = [] then onlyRemoteCommitShaChanged
                               else onlyRemoteChanged)
                            else if lastFetchedCommitSha fit = Some c then onlyLocalChanged
                            else if getClashedChanges (compareShaLocal cur (localSha fit))
                                      (getRemoteChanges fit t) = []
                            then localAndRemoteChangesCompatible
                            else localAndRemoteChangesClashed)
                           \<lparr>remoteChanges = getRemoteChanges fit t, remoteTreeSha = t,
                            latestRemoteCommitSha = c,
                            clashedFiles =
                              (if compareShaLocal cur (localSha fit) = []
                                  \<or> lastFetchedCommitSha fit = Some c
                               then []
                               else getClashedChanges (compareShaLocal cur (localSha fit))
                                      (getRemoteChanges fit t))\<rparr>
                           (compareShaLocal cur (localSha fit)) cur), w3)"
      unfolding classify_exact [OF ne] .
  next
    fix e w3
    assume h: "\<not> (map_of cur = map_of (localSha fit) \<and> lastFetchedCommitSha fit = Some c)"
      and t: "getRemoteTreeSha env c (tr2, s2) = (Inl e, w3)"
    from h nil have ne: "\<not> (compareShaLocal cur (localSha fit) = [] \<and> Some c = lastFetchedCommitSha fit)"
      by auto
    show "performPreSyncChecks env fit (tr0, s0) = (Inl e, w3)"
      using red ne t by (simp add: bind_def)
  qed
qed

lemmas diff_eval = compareShaLocal_def compareShaRemote_def compareSha_def
  getRemoteChanges_def getClashedChanges_def List.map_filter_def

theorem performPreSyncChecks_classification_witness:
  "performPreSyncChecks demo_env demo_fit_synced ([], demo_state0)
     = (Inr InSyncResult,
        ([(VaultGetFiles, True), (VaultReadBinary ''a.md'', True),
          (RequestGetRef ''heads/main'', True)], demo_state0))
   \<and> performPreSyncChecks demo_env demo_fit_fresh ([], demo_state0)
     = (Inr (ChangeResult localAndRemoteChangesClashed
               \<lparr>remoteChanges =
                  [\<lparr>rc_path = ''README.md'', rc_status = ADDED, currentSha = None\<rparr>,
                   \<lparr>rc_path = ''a.md'', rc_status = ADDED, currentSha = None\<rparr>],
                remoteTreeSha = [(''README.md'', ''b1''), (''a.md'', ''b2'')],
                latestRemoteCommitSha = ''c1'',
                clashedFiles =
                  [\<lparr>cs_path = ''a.md'', localStatus = created, remoteStatus = ADDED\<rparr>]\<rparr>
               [\<lparr>lc_path = ''a.md'', lc_status = created\<rparr>]
               [(''a.md'', ''a.mdaGVsbG8='')]),
        ([(VaultGetFiles, True), (VaultReadBinary ''a.md'', True),
          (RequestGetRef ''heads/main'', True), (RequestGetTree ''c1'', True)],
         demo_state0))"
proof -
  have loc: "computeLocalSha demo_env ([], demo_state0)
      = (Inr [(''a.md'', ''a.mdaGVsbG8='')],
         ([(VaultGetFiles, True), (VaultReadBinary ''a.md'', True)], demo_state0))"
    by (simp add: computeLocalSha_def computeFileLocalSha_def fileSha1_def
        arrayBufferToBase64_def fromEntries_def startsWith_def bind_apply prim_apply
        return_apply demo_env_def demo_state0_def demo_lib_def b64_eval)
  have rem: "getLatestRemoteCommitSha demo_env fit
               ([(VaultGetFiles, True), (VaultReadBinary ''a.md'', True)], demo_state0)
      = (Inr ''c1'',
         ([(VaultGetFiles, True), (VaultReadBinary ''a.md'', True),
           (RequestGetRef (''heads/'' @ branch fit), True)], demo_state0))" for fit
    by (simp add: getLatestRemoteCommitSha_def getRef_def try_catch_def prim_apply
        demo_env_def demo_state0_def)
  have tree: "getRemoteTreeSha demo_env ''c1''
                ([(VaultGetFiles, True), (VaultReadBinary ''a.md'', True),
                  (RequestGetRef (''heads/'' @ branch demo_fit_fresh), True)], demo_state0)
      = (Inr [(''README.md'', ''b1''), (''a.md'', ''b2'')],
         ([(VaultGetFiles, True), (VaultReadBinary ''a.md'', True),
           (RequestGetRef ''heads/main'', True), (RequestGetTree ''c1'', True)], demo_state0))"
    by (simp add: getRemoteTreeSha_def getTree_def decryptNode_def blobEntry_def
        fromEntries_def startsWith_def bind_apply prim_apply return_apply
        demo_env_def demo_state0_def demo_lib_def demo_fit_fresh_def path_eval b64_eval)
  from performPreSyncChecks_classification [OF loc rem [of demo_fit_synced]]
  have one: "performPreSyncChecks demo_env demo_fit_synced ([], demo_state0)
     = (Inr InSyncResult,
        ([(VaultGetFiles, True), (VaultReadBinary ''a.md'', True),
          (RequestGetRef ''heads/main'', True)], demo_state0))"
    by (simp add: demo_fit_synced_def)
  from performPreSyncChecks_classification [OF loc rem [of demo_fit_fresh]] tree
  have two: "performPreSyncChecks demo_env demo_fit_fresh ([], demo_state0)
     = (Inr (ChangeResult localAndRemoteChangesClashed
               \<lparr>remoteChanges =
                  [\<lparr>rc_path = ''README.md'', rc_status = ADDED, currentSha = None\<rparr>,
                   \<lparr>rc_path = ''a.md'', rc_status = ADDED, currentSha = None\<rparr>],
                remoteTreeSha = [(''README.md'', ''b1''), (''a.md'', ''b2'')],
                latestRemoteCommitSha = ''c1'',
                clashedFiles =
                  [\<lparr>cs_path = ''a.md'', localStatus = created, remoteStatus = ADDED\<rparr>]\<rparr>
               [\<lparr>lc_path = ''a.md'', lc_status = created\<rparr>]
               [(''a.md'', ''a.mdaGVsbG8='')]),
        ([(VaultGetFiles, True), (VaultReadBinary ''a.md'', True),
          (RequestGetRef ''heads/main'', True), (RequestGetTree ''c1'', True)],
         demo_state0))"
    by (simp add: demo_fit_fresh_def diff_eval)
  from one two show ?thesis by simp
qed

subsection \<open>Conflict resolution leaves the working file alone\<close>

lemma quarantine_path_neq: "''_fit/'' @ p \<noteq> p"
proof
  assume "''_fit/'' @ p = p"
  then have "length (''_fit/'' @ p) = length p" by simp
  then show False by simp
qed

lemma getBlob_trace:
  "getBlob env sha (tr, s) = (r, (tr', s')) \<Longrightarrow> \<exists>ok. tr' = tr @ [(RequestGetBlob sha, ok)]"
  by (auto simp: getBlob_def bind_def prim_def return_def Let_def split: prod.splits sum.splits)

lemma resolveFileConflict_calls:
  assumes "resolveFileConflict env cl sha (tr, s) = (r, (tr', s'))"
  shows "\<exists>new. tr' = tr @ new \<and> fst ` set new \<subseteq> allowedCalls cl sha"
  using assms
  by (auto simp: resolveFileConflict_def handleLocalDeletionConflict_def getBlob_def
      unawaited_def bind_def prim_def return_def Let_def generateConflictReport_def
      allowedCalls_def
      split: if_splits prod.splits sum.splits)


lemma resolveFileConflict_differ:
  assumes "localStatus cl \<noteq> deleted"
      and "vault_readBinary env (cs_path cl) s = (Inr buf, s1)"
      and "truthy sha"
      and "getBlob env sha (tr @ [(VaultReadBinary (cs_path cl), True)], s1)
             = (Inr remoteContent, (tr2, s2))"
      and "removeLineEndingsFromBase64String env remoteContent
             \<noteq> removeLineEndingsFromBase64String env (arrayBufferToBase64 buf)"
      and "vault_ensureFolderExists env (''_fit/'' @ cs_path cl) s2 = (Inr b, s3)"
      and "vault_writeToLocal env (''_fit/'' @ cs_path cl) remoteContent s3 = (Inr fo, s4)"
  shows "resolveFileConflict env cl sha (tr, s)
           = (Inr \<lparr>cr_path = cs_path cl, noDiff = False,
                    fileOp = Some \<lparr>fo_path = ''_fit/'' @ cs_path cl, fo_status = created\<rparr>\<rparr>,
              (tr2 @ [(EnsureFolderExists (''_fit/'' @ cs_path cl), True),
                      (WriteToLocal (''_fit/'' @ cs_path cl) remoteContent, True)], s4))"
  using assms
  by (simp add: resolveFileConflict_def bind_def prim_def return_def Let_def
      generateConflictReport_def)

text \<open>
  Claim C4. Resolving a clash makes no call but reading the clashed file, fetching the
  remote blob, ensuring a quarantine folder and writing under \<^verbatim>\<open>_fit/<path>\<close>,
  which is never the clashed path itself: no call writes or deletes the file at the
  clashed path. When the file exists locally, the remote blob is fetched and its content
  differs from the local content, the remote content is written to
  \<^verbatim>\<open>_fit/<path>\<close>, and the result is \<^verbatim>\<open>noDiff = false\<close> with a file operation
  of status \<^verbatim>\<open>created\<close> at that quarantine path.
\<close>

theorem resolveFileConflict_quarantine:
  assumes run: "resolveFileConflict env cl sha (tr, s) = (r, (tr', s'))"
  shows "(\<exists>new. tr' = tr @ new \<and> fst ` set new \<subseteq> allowedCalls cl sha)
       \<and> ''_fit/'' @ cs_path cl \<noteq> cs_path cl
       \<and> (\<forall>buf remoteContent s1 s2 b s3 fo s4.
            localStatus cl \<noteq> deleted
            \<and> vault_readBinary env (cs_path cl) s = (Inr buf, s1)
            \<and> truthy sha
            \<and> getBlob env sha (tr @ [(VaultReadBinary (cs_path cl), True)], s1)
                  = (Inr remoteContent,
                     (tr @ [(VaultReadBinary (cs_path cl), True), (RequestGetBlob sha, True)], s2))
            \<and> removeLineEndingsFromBase64String env remoteContent
                  \<noteq> removeLineEndingsFromBase64String env (arrayBufferToBase64 buf)
            \<and> vault_ensureFolderExists env (''_fit/'' @ cs_path cl) s2 = (Inr b, s3)
            \<and> vault_writeToLocal env (''_fit/'' @ cs_path cl) remoteContent s3 = (Inr fo, s4)
            \<longrightarrow> r = Inr \<lparr>cr_path = cs_path cl, noDiff = False,
                        fileOp = Some \<lparr>fo_path = ''_fit/'' @ cs_path cl, fo_status = created\<rparr>\<rparr>
              \<and> tr' = tr @ [(VaultReadBinary (cs_path cl), True), (RequestGetBlob sha, True),
                           (EnsureFolderExists (''_fit/'' @ cs_path cl), True),
                           (WriteToLocal (''_fit/'' @ cs_path cl) remoteContent, True)]
              \<and> s' = s4)"
proof (intro conjI allI impI)
  show "\<exists>new. tr' = tr @ new \<and> fst ` set new \<subseteq> allowedCalls cl sha"
    by (rule resolveFileConflict_calls [OF run])
  show "''_fit/'' @ cs_path cl \<noteq> cs_path cl"
    by (rule quarantine_path_neq)
next
  fix buf remoteContent s1 s2 b s3 fo s4
  assume h: "localStatus cl \<noteq> deleted
            \<and> vault_readBinary env (cs_path cl) s = (Inr buf, s1)
            \<and> truthy sha
            \<and> getBlob env sha (tr @ [(VaultReadBinary (cs_path cl), True)], s1)
                  = (Inr remoteContent,
                     (tr @ [(VaultReadBinary (cs_path cl), True), (RequestGetBlob sha, True)], s2))
            \<and> removeLineEndingsFromBase64String env remoteContent
                  \<noteq> removeLineEndingsFromBase64String env (arrayBufferToBase64 buf)
            \<and> vault_ensureFolderExists env (''_fit/'' @ cs_path cl) s2 = (Inr b, s3)
            \<and> vault_writeToLocal env (''_fit/'' @ cs_path cl) remoteContent s3 = (Inr fo, s4)"
  have "resolveFileConflict env cl sha (tr, s)
           = (Inr \<lparr>cr_path = cs_path cl, noDiff = False,
                    fileOp = Some \<lparr>fo_path = ''_fit/'' @ cs_path cl, fo_status = created\<rparr>\<rparr>,
              ((tr @ [(VaultReadBinary (cs_path cl), True), (RequestGetBlob sha, True)])
                 @ [(EnsureFolderExists (''_fit/'' @ cs_path cl), True),
                      (WriteToLocal (''_fit/'' @ cs_path cl) remoteContent, True)], s4))"
    using h by (intro resolveFileConflict_differ) (elim conjE, assumption)+
  with run show "r = Inr \<lparr>cr_path = cs_path cl, noDiff = False,
                        fileOp = Some \<lparr>fo_path = ''_fit/'' @ cs_path cl, fo_status = created\<rparr>\<rparr>"
    and "tr' = tr @ [(VaultReadBinary (cs_path cl), True), (RequestGetBlob sha, True),
                           (EnsureFolderExists (''_fit/'' @ cs_path cl), True),
                           (WriteToLocal (''_fit/'' @ cs_path cl) remoteContent, True)]"
    and "s' = s4"
    by simp_all
qed

theorem resolveFileConflict_quarantine_witness:
  "resolveFileConflict demo_env demo_clash (Some ''b2'') ([], demo_state0)
     = (Inr \<lparr>cr_path = ''a.md'', noDiff = False,
              fileOp = Some \<lparr>fo_path = ''_fit/a.md'', fo_status = created\<rparr>\<rparr>,
        ([(VaultReadBinary ''a.md'', True), (RequestGetBlob (Some ''b2''), True),
          (EnsureFolderExists ''_fit/a.md'', True), (WriteToLocal ''_fit/a.md'' ''hi'', True)],
         demo_state0\<lparr>ds_files := [(''a.md'', charCodes ''hello''),
                                   (''_fit/a.md'', charCodes ''hi'')]\<rparr>))
   \<and> ''_fit/a.md'' \<noteq> ''a.md''"
proof -
  let ?s4 = "demo_state0\<lparr>ds_files := [(''a.md'', charCodes ''hello''),
                                   (''_fit/a.md'', charCodes ''hi'')]\<rparr>"
  obtain r tr' s' where run:
    "resolveFileConflict demo_env demo_clash (Some ''b2'') ([], demo_state0) = (r, (tr', s'))"
    by (metis prod.exhaust)
  have rd: "vault_readBinary demo_env (cs_path demo_clash) demo_state0
              = (Inr (charCodes ''hello''), demo_state0)"
    by (simp add: demo_env_def demo_state0_def demo_clash_def)
  have gb: "getBlob demo_env (Some ''b2'')
              ([] @ [(VaultReadBinary (cs_path demo_clash), True)], demo_state0)
              = (Inr ''hi'', ([] @ [(VaultReadBinary (cs_path demo_clash), True),
                                    (RequestGetBlob (Some ''b2''), True)], demo_state0))"
    by (simp add: getBlob_def bind_apply prim_apply return_apply decrypt_def
        demo_env_def demo_state0_def demo_lib_def importKey_def demo_clash_def b64_eval)
  have df: "removeLineEndingsFromBase64String demo_env ''hi''
              \<noteq> removeLineEndingsFromBase64String demo_env
                   (arrayBufferToBase64 (charCodes ''hello''))"
    by (simp add: demo_env_def arrayBufferToBase64_def b64_eval)
  have en: "vault_ensureFolderExists demo_env (''_fit/'' @ cs_path demo_clash) demo_state0
              = (Inr False, demo_state0)"
    by (simp add: demo_env_def)
  have wr: "vault_writeToLocal demo_env (''_fit/'' @ cs_path demo_clash) ''hi'' demo_state0
              = (Inr \<lparr>fo_path = ''_fit/a.md'', fo_status = created\<rparr>, ?s4)"
    by (simp add: demo_env_def demo_state0_def demo_clash_def)
  note third = resolveFileConflict_quarantine [OF run, THEN conjunct2, THEN conjunct2, rule_format,
      where buf = "charCodes ''hello''" and remoteContent = "''hi''" and ?s1.0 = demo_state0
        and ?s2.0 = demo_state0 and b = False and ?s3.0 = demo_state0
        and fo = "\<lparr>fo_path = ''_fit/a.md'', fo_status = created\<rparr>" and ?s4.0 = ?s4]
  from third rd gb df en wr
  have "r = Inr \<lparr>cr_path = cs_path demo_clash, noDiff = False,
                  fileOp = Some \<lparr>fo_path = ''_fit/'' @ cs_path demo_clash, fo_status = created\<rparr>\<rparr>
      \<and> tr' = [] @ [(VaultReadBinary (cs_path demo_clash), True), (RequestGetBlob (Some ''b2''), True),
                   (EnsureFolderExists (''_fit/'' @ cs_path demo_clash), True),
                   (WriteToLocal (''_fit/'' @ cs_path demo_clash) ''hi'', True)]
      \<and> s' = ?s4"
    by (simp add: demo_clash_def truthy_def)
  with run resolveFileConflict_quarantine [OF run] show ?thesis
    by (simp add: demo_clash_def)
qed

subsection \<open>Persistence of the snapshot\<close>




lemma calm_append [simp]: "calm (xs @ ys) \<longleftrightarrow> calm xs \<and> calm ys"
  by (simp add: calm_def)

lemma nosave_Nil [simp]: "nosave []" by (simp add: nosave_def)
lemma calm_Nil [simp]: "calm []" by (simp add: calm_def)
























































section \<open>Path tokens survive the round trip\<close>

text \<open>
  \<^verbatim>\<open>arrayBufferToBase64Url\<close> and \<^verbatim>\<open>base64UrlToArrayBuffer\<close> are the repository's own
  code around the platform's \<^verbatim>\<open>btoa\<close> and \<^verbatim>\<open>atob\<close>: the first replaces the two
  characters that are unsafe in a path and strips the padding, the second undoes the
  replacement and relies on the decoder accepting an unpadded input.
\<close>

subsection \<open>Base64 arithmetic\<close>

lemma recompose2: "(n div 64 mod 64) * 64 + n mod 64 = n" if "n < 4096" for n :: nat
proof -
  have "n div 64 < 64" using that by (simp add: div_less_iff_less_mult)
  then have "n div 64 mod 64 = n div 64" by simp
  then show ?thesis by simp
qed

lemma recompose3:
  "(n div 4096 mod 64) * 4096 + (n div 64 mod 64) * 64 + n mod 64 = n" if "n < 262144" for n :: nat
proof -
  define x where "x = n div 4096"
  define y where "y = n div 64 mod 64"
  define z where "z = n mod 64"
  have "n div 64 div 64 = x" by (simp add: x_def div_mult2_eq [symmetric])
  then have a: "n div 64 = x * 64 + y"
    using div_mult_mod_eq [of "n div 64" 64] by (simp add: y_def)
  have b: "n = (n div 64) * 64 + z" by (simp add: z_def)
  have "x < 64" using that by (simp add: x_def div_less_iff_less_mult)
  then have "n div 4096 mod 64 = x" by (simp add: x_def)
  moreover have "n = x * 4096 + y * 64 + z" using a b by simp
  ultimately show ?thesis unfolding y_def [symmetric] z_def [symmetric] by simp
qed

lemma recompose4:
  "(n div 262144 mod 64) * 262144 + (n div 4096 mod 64) * 4096 + (n div 64 mod 64) * 64
     + n mod 64 = n" if "n < 16777216" for n :: nat
proof -
  define w where "w = n div 262144"
  define x where "x = n div 4096 mod 64"
  define y where "y = n div 64 mod 64"
  define z where "z = n mod 64"
  have "n div 4096 div 64 = w" by (simp add: w_def div_mult2_eq [symmetric])
  then have c: "n div 4096 = w * 64 + x"
    using div_mult_mod_eq [of "n div 4096" 64] by (simp add: x_def)
  have "n div 64 div 64 = n div 4096" by (simp add: div_mult2_eq [symmetric])
  then have a: "n div 64 = (n div 4096) * 64 + y"
    using div_mult_mod_eq [of "n div 64" 64] by (simp add: y_def)
  have b: "n = (n div 64) * 64 + z" by (simp add: z_def)
  have "w < 64" using that by (simp add: w_def div_less_iff_less_mult)
  then have "n div 262144 mod 64 = w" by (simp add: w_def)
  moreover have "n = w * 262144 + x * 4096 + y * 64 + z" using a b c by simp
  ultimately show ?thesis
    unfolding x_def [symmetric] y_def [symmetric] z_def [symmetric] by simp
qed

lemma split3:
  fixes A B C :: nat
  assumes "B < 256" "C < 256"
  shows "(A * 65536 + B * 256 + C) div 65536 = A"
    and "(A * 65536 + B * 256 + C) div 256 mod 256 = B"
    and "(A * 65536 + B * 256 + C) mod 256 = C"
proof -
  have r: "B * 256 + C < 65536" using assms by simp
  have e0: "A * 65536 + B * 256 + C = (B * 256 + C) + A * 65536" by simp
  show "(A * 65536 + B * 256 + C) div 65536 = A"
    by (simp only: e0 div_mult_self1 div_less [OF r], simp?)
  have e: "A * 65536 + B * 256 + C = C + (A * 256 + B) * 256" by simp
  have d: "(A * 65536 + B * 256 + C) div 256 = A * 256 + B"
    by (simp only: e div_mult_self1 div_less [OF assms(2)], simp?)
  have "(B + A * 256) mod 256 = B"
    by (simp only: mod_mult_self1 mod_less [OF assms(1)])
  then show "(A * 65536 + B * 256 + C) div 256 mod 256 = B"
    by (simp only: d add.commute [of "A * 256" B])
  show "(A * 65536 + B * 256 + C) mod 256 = C"
    by (simp only: e mod_mult_self1 mod_less [OF assms(2)])
qed

lemma split2:
  fixes A B :: nat
  assumes "B < 256"
  shows "(A * 1024 + B * 4) div 4 div 256 = A" and "(A * 1024 + B * 4) div 4 mod 256 = B"
proof -
  have e: "A * 1024 + B * 4 = (A * 256 + B) * 4" by simp
  have d: "(A * 1024 + B * 4) div 4 = B + A * 256"
    by (simp only: e nonzero_mult_div_cancel_right, simp?)
  show "(A * 1024 + B * 4) div 4 div 256 = A"
    by (simp only: d div_mult_self1 div_less [OF assms], simp?)
  show "(A * 1024 + B * 4) div 4 mod 256 = B"
    by (simp only: d mod_mult_self1 mod_less [OF assms])
qed


lemma of_char_lt_256: "(of_char c :: nat) < 256"
proof -
  have "of_char c = (of_char (char_of (of_char c :: nat)) :: nat)" by simp
  also have "\<dots> = (of_char c :: nat) mod 256" by (simp only: of_char_of)
  finally have "(of_char c :: nat) = of_char c mod 256" .
  then show ?thesis by (metis mod_less_divisor zero_less_numeral)
qed

lemma char_of_eqI: "m mod 256 = (of_char c :: nat) \<Longrightarrow> char_of m = c"
proof -
  assume "m mod 256 = (of_char c :: nat)"
  then have "char_of (m mod 256) = char_of (of_char c :: nat)" by simp
  then show "char_of m = c" by simp
qed

lemma atob_groups_sextets_of: "atob_groups (sextets_of s) = s"
proof (induction s rule: sextets_of.induct)
  case (1 a b c rest)
  define A B C where "A = (of_char a :: nat)" and "B = (of_char b :: nat)" and "C = (of_char c :: nat)"
  define n where "n = A * 65536 + B * 256 + C"
  have lt: "A < 256" "B < 256" "C < 256" by (simp_all add: A_def B_def C_def of_char_lt_256)
  then have n: "n < 16777216" by (simp add: n_def)
  note rc = recompose4 [OF n]
  have c1: "char_of (n div 65536) = a"
    by (rule char_of_eqI) (simp add: n_def split3 [OF lt(2,3)] lt A_def [symmetric])
  have c2: "char_of (n div 256) = b"
    by (rule char_of_eqI) (simp add: n_def split3 [OF lt(2,3)] B_def [symmetric])
  have c3: "char_of n = c"
    by (rule char_of_eqI) (simp add: n_def split3 [OF lt(2,3)] C_def [symmetric])
  have "sextets_of (a # b # c # rest)
          = (n div 262144) mod 64 # (n div 4096) mod 64 # (n div 64) mod 64 # n mod 64
            # sextets_of rest"
    by (simp add: n_def A_def B_def C_def Let_def)
  then show ?case by (simp only: atob_groups.simps Let_def rc 1 c1 c2 c3)
next
  case (2 a b)
  define A B where "A = (of_char a :: nat)" and "B = (of_char b :: nat)"
  define n where "n = A * 1024 + B * 4"
  have lt: "A < 256" "B < 256" by (simp_all add: A_def B_def of_char_lt_256)
  then have n: "n < 262144" by (simp add: n_def)
  note rc = recompose3 [OF n]
  have c1: "char_of (n div 4 div 256) = a"
    by (rule char_of_eqI) (simp add: n_def split2 [OF lt(2)] lt A_def [symmetric])
  have c2: "char_of (n div 4) = b"
    by (rule char_of_eqI) (simp add: n_def split2 [OF lt(2)] lt B_def [symmetric])
  have "sextets_of [a, b] = [(n div 4096) mod 64, (n div 64) mod 64, n mod 64]"
    by (simp add: n_def A_def B_def Let_def)
  then show ?case by (simp only: atob_groups.simps Let_def rc c1 c2)
next
  case (3 a)
  define A where "A = (of_char a :: nat)"
  define n where "n = A * 16"
  have lt: "A < 256" by (simp add: A_def of_char_lt_256)
  then have n: "n < 4096" by (simp add: n_def)
  note rc = recompose2 [OF n]
  have c1: "char_of (n div 16) = a"
    by (rule char_of_eqI) (simp add: n_def lt A_def [symmetric])
  have "sextets_of [a] = [(n div 64) mod 64, n mod 64]"
    by (simp add: n_def A_def Let_def)
  then show ?case by (simp only: atob_groups.simps Let_def rc c1)
next
  case 4
  show ?case by simp
qed

lemma length_sextets_of: "length (sextets_of s) mod 4 \<noteq> 1"
  by (induction s rule: sextets_of.induct) (simp_all add: Let_def)

lemma sextets_of_lt: "n \<in> set (sextets_of s) \<Longrightarrow> n < 64"
  by (induction s rule: sextets_of.induct) (auto simp: Let_def)

lemma b64_char_mod [simp]: "b64_char (n mod 64) = b64_char n"
  by (simp add: b64_char_def)

lemma btoa_split: "\<exists>k. btoa s = map b64_char (sextets_of s) @ replicate k CHR ''=''"
proof (induction s rule: btoa.induct)
  case (1 a b c rest)
  then obtain k where "btoa rest = map b64_char (sextets_of rest) @ replicate k CHR ''=''"
    by blast
  then show ?case by (intro exI [of _ k]) (simp add: Let_def)
next
  case (2 a b)
  show ?case by (intro exI [of _ 1]) (simp add: Let_def)
next
  case (3 a)
  show ?case by (intro exI [of _ 2]) (simp add: Let_def numeral_2_eq_2)
next
  case 4
  show ?case by simp
qed


subsection \<open>The alphabet\<close>

lemma b64_index_char: "n < 64 \<Longrightarrow> b64_index (b64_char n) = Some n"
proof -
  have "\<forall>n \<in> set [0..<64]. b64_index (b64_char n) = Some n"
    by (simp add: upt_rec [of _ "numeral _"] b64_index_def b64_char_def b64chars_def)
  then show "n < 64 \<Longrightarrow> b64_index (b64_char n) = Some n" by simp
qed

lemma b64_char_in: "b64_char n \<in> set b64chars"
  unfolding b64_char_def by (rule nth_mem) (simp add: b64chars_def)

lemma b64chars_plain:
  assumes "c \<in> set b64chars"
  shows "c \<noteq> CHR ''=''" and "c \<noteq> CHR ''-''" and "c \<noteq> CHR ''_''"
    and "\<not> is_ascii_whitespace c"
  using assms by (auto simp: b64chars_def is_ascii_whitespace_def)

lemma sextets_b64: "(\<And>n. n \<in> set ns \<Longrightarrow> n < 64) \<Longrightarrow> sextets (map b64_char ns) = Some ns"
  by (induction ns) (simp_all add: b64_index_char)

lemma drop_padding_id: "s = [] \<or> last s \<noteq> CHR ''='' \<Longrightarrow> drop_padding s = s"
  by (auto simp: drop_padding_def)

lemma atob_b64:
  assumes lt: "\<And>n. n \<in> set ns \<Longrightarrow> n < 64" and len: "length ns mod 4 \<noteq> 1"
  shows "atob (map b64_char ns) = Inr (atob_groups ns)"
proof -
  let ?d = "map b64_char ns"
  have "filter (\<lambda>c. \<not> is_ascii_whitespace c) ?d = ?d"
    by (rule filter_True) (auto simp: b64chars_plain(4) [OF b64_char_in])
  moreover have "drop_padding ?d = ?d"
  proof (rule drop_padding_id)
    show "?d = [] \<or> last ?d \<noteq> CHR ''=''"
      by (cases "ns = []") (simp_all add: last_map b64chars_plain(1) [OF b64_char_in])
  qed
  ultimately show ?thesis
    using len by (simp add: atob_def sextets_b64 [OF lt])
qed

subsection \<open>The URL-safe alphabet and the padding\<close>

lemma dropWhile_none: "(\<And>x. x \<in> set ys \<Longrightarrow> \<not> P x) \<Longrightarrow> dropWhile P ys = ys"
  by (cases ys) simp_all

lemma stripPadding_pad:
  assumes "CHR ''='' \<notin> set xs"
  shows "stripPadding (xs @ replicate k CHR ''='') = xs"
proof -
  have "dropWhile (\<lambda>c. c = CHR ''='') (replicate k CHR ''='' @ rev xs)
          = dropWhile (\<lambda>c. c = CHR ''='') (rev xs)"
    by (rule dropWhile_append2) simp
  also have "\<dots> = rev xs"
    using assms by (intro dropWhile_none) auto
  finally show ?thesis by (simp add: stripPadding_def)
qed

lemma url_alphabet:
  assumes "\<And>c. c \<in> set B \<Longrightarrow> c \<in> set b64chars"
  shows "replaceAll CHR ''_'' CHR ''/'' (replaceAll CHR ''-'' CHR ''+''
           (stripPadding (replaceAll CHR ''/'' CHR ''_'' (replaceAll CHR ''+'' CHR ''-''
              (B @ replicate k CHR ''=''))))) = B"
proof -
  let ?f = "\<lambda>c. if (if c = CHR ''+'' then CHR ''-'' else c) = CHR ''/'' then CHR ''_''
                  else (if c = CHR ''+'' then CHR ''-'' else c)"
  have e: "replaceAll CHR ''/'' CHR ''_'' (replaceAll CHR ''+'' CHR ''-'' (B @ replicate k CHR ''=''))
             = map ?f B @ replicate k CHR ''=''"
    by (simp add: replaceAll_def comp_def)
  have "CHR ''='' \<notin> set (map ?f B)"
    using assms b64chars_plain(1) by (auto split: if_splits)
  then have s: "stripPadding (map ?f B @ replicate k CHR ''='') = map ?f B"
    by (rule stripPadding_pad)
  let ?g = "\<lambda>c. if (if ?f c = CHR ''-'' then CHR ''+'' else ?f c) = CHR ''_'' then CHR ''/''
                  else (if ?f c = CHR ''-'' then CHR ''+'' else ?f c)"
  have "map ?g B = B"
  proof (rule map_idI)
    fix c assume "c \<in> set B"
    then have "c \<in> set b64chars" by (rule assms)
    then have "c \<noteq> CHR ''-''" "c \<noteq> CHR ''_''" by (rule b64chars_plain)+
    then show "?g c = c" by simp
  qed
  then have "replaceAll CHR ''_'' CHR ''/'' (replaceAll CHR ''-'' CHR ''+'' (map ?f B)) = B"
    by (simp add: replaceAll_def comp_def)
  then show ?thesis by (simp only: e s)
qed

subsection \<open>Bytes and the cipher\<close>

lemma charCodes_fromCharCodes: "charCodes (fromCharCodes bs) = bs"
proof -
  have "(of_char (char_of (unat b)) :: byte) = b" for b :: byte
  proof -
    have "unat b < 256" using unsigned_less [of b] by simp
    then have "(of_char (char_of (unat b)) :: nat) = unat b" by (simp add: of_char_of)
    then have "of_nat (of_char (char_of (unat b)) :: nat) = (of_nat (unat b) :: byte)" by simp
    then show ?thesis by (simp only: of_nat_of_char of_nat_unat ucast_id)
  qed
  then show ?thesis by (simp add: charCodes_def fromCharCodes_def comp_def)
qed

lemma base64Url_roundtrip: "base64UrlToArrayBuffer (arrayBufferToBase64Url bs) = Inr bs"
proof -
  let ?s = "fromCharCodes bs"
  let ?B = "map b64_char (sextets_of ?s)"
  obtain k where k: "btoa ?s = ?B @ replicate k CHR ''=''"
    using btoa_split by blast
  have u: "replaceAll CHR ''_'' CHR ''/'' (replaceAll CHR ''-'' CHR ''+''
             (arrayBufferToBase64Url bs)) = ?B"
    unfolding arrayBufferToBase64Url_def Let_def k
    by (rule url_alphabet) (auto simp: b64_char_in)
  have "atob ?B = Inr ?s"
    using atob_b64 [of "sextets_of ?s", OF sextets_of_lt length_sextets_of]
    by (simp add: atob_groups_sextets_of)
  then show ?thesis
    by (simp add: base64UrlToArrayBuffer_def u charCodes_fromCharCodes)
qed

lemma aes_ctr_involution: "aes_ctr L k iv (aes_ctr L k iv bs) = bs"
proof (rule nth_equalityI)
  show "length (aes_ctr L k iv (aes_ctr L k iv bs)) = length bs"
    by (simp add: aes_ctr_def)
next
  fix i assume "i < length (aes_ctr L k iv (aes_ctr L k iv bs))"
  then have i: "i < length bs" by (simp add: aes_ctr_def)
  then show "aes_ctr L k iv (aes_ctr L k iv bs) ! i = bs ! i"
    by (simp add: aes_ctr_def nth_enumerate_eq xor.assoc)
qed

lemma decryptPath_encryptPath:
  assumes "lossless L" and "validPath L p"
  shows "decryptPath L k (encryptPath L k p) = Inr p"
  using assms
  by (simp add: decryptPath_def encryptPath_def Let_def base64Url_roundtrip
      aes_ctr_involution lossless_def validPath_def)

text \<open>
  Claim C1. For a fixed key, \<^verbatim>\<open>decryptPath\<close> gives back every valid path that
  \<^verbatim>\<open>encryptPath\<close> has encrypted, and two valid paths have the same token exactly when
  they are the same path. \<^verbatim>\<open>encryptPath\<close> is a function of the key and the path alone
  (the counter block is the constant \<^const>\<open>IV\<close>), so the same path always gives the same
  token. A path is valid when the text codec gives it back (\<^const>\<open>validPath\<close>); the
  decompressor is assumed to invert the compressor (\<^const>\<open>lossless\<close>), and AES-CTR is
  the XOR with a key stream fixed by the key and the counter block.
\<close>

theorem path_roundtrip:
  assumes "lossless L" and "validPath L p" and "validPath L p1" and "validPath L p2"
  shows "decryptPath L k (encryptPath L k p) = Inr p
       \<and> (encryptPath L k p1 = encryptPath L k p2 \<longleftrightarrow> p1 = p2)"
proof (intro conjI iffI)
  show "decryptPath L k (encryptPath L k p) = Inr p"
    using assms(1,2) by (rule decryptPath_encryptPath)
next
  assume e: "encryptPath L k p1 = encryptPath L k p2"
  have "Inr p1 = decryptPath L k (encryptPath L k p1)"
    using assms(1,3) by (rule decryptPath_encryptPath [symmetric])
  also have "\<dots> = decryptPath L k (encryptPath L k p2)" by (simp only: e)
  also have "\<dots> = Inr p2" using assms(1,4) by (rule decryptPath_encryptPath)
  finally show "p1 = p2" by simp
next
  assume "p1 = p2"
  then show "encryptPath L k p1 = encryptPath L k p2" by simp
qed

theorem path_roundtrip_witness:
  "lossless demo_lib \<and> validPath demo_lib ''a.md'' \<and> validPath demo_lib ''b.md''
   \<and> encryptPath demo_lib ''k'' ''a.md'' = ''IjpyMDo''
   \<and> decryptPath demo_lib ''k'' ''IjpyMDo'' = Inr ''a.md''
   \<and> encryptPath demo_lib ''k'' ''a.md'' \<noteq> encryptPath demo_lib ''k'' ''b.md''"
proof -
  have l: "lossless demo_lib" by (simp add: lossless_def demo_lib_def)
  have a: "validPath demo_lib ''a.md''" by (simp add: validPath_def demo_lib_def b64_eval)
  have b: "validPath demo_lib ''b.md''" by (simp add: validPath_def demo_lib_def b64_eval)
  have e: "encryptPath demo_lib ''k'' ''a.md'' = ''IjpyMDo''"
    by (simp add: demo_lib_def path_eval b64_eval)
  note r = path_roundtrip [OF l a a b, of "''k''"]
  have d: "decryptPath demo_lib ''k'' ''IjpyMDo'' = Inr ''a.md''"
    using r e by simp
  have n: "encryptPath demo_lib ''k'' ''a.md'' \<noteq> encryptPath demo_lib ''k'' ''b.md''"
    using r by simp
  show ?thesis using l a b e d n by (intro conjI)
qed


end
